theory Spec2Isabelle
  imports Main
begin

section \<open>Data model of \<open>PyTreeSpec\<close>\<close>

text \<open>
  The embedding follows \<^verbatim>\<open>include/treespec.h\<close> and \<^verbatim>\<open>src/treespec/treespec.cpp\<close>.
  A \<^verbatim>\<open>PyTreeSpec\<close> is a vector of nodes in post-order together with the flag
  \<^verbatim>\<open>m_none_is_leaf\<close> and the string \<^verbatim>\<open>m_namespace\<close>.

  The enumeration \<^verbatim>\<open>PyTreeKind\<close>; the constructor for \<^verbatim>\<open>PyTreeKind::None\<close> is
  written \<open>NoneKind\<close>, since \<open>None\<close> is the empty option of HOL.
\<close>

datatype PyTreeKind =
    Custom | Leaf | NoneKind | Tuple | List | Dict
  | NamedTuple | OrderedDict | DefaultDict | Deque | StructSequence

text \<open>
  Values of the host language (\<^verbatim>\<open>py::object\<close>), as far as the code looks into them:
  \<^verbatim>\<open>None\<close>, booleans, integers, strings, tuples, lists and type objects. \<open>PyOpaque\<close>
  stands for any other object, named by its identity. A \<^verbatim>\<open>py::object\<close> field of a node
  may hold no object at all (a null pointer): such a field is a \<open>pyobj option\<close>.
\<close>

datatype pyobj =
    PyNone
  | PyBool bool
  | PyInt int
  | PyStr string
  | PyTuple "pyobj list"
  | PyList "pyobj list"
  | PyType string
  | PyOpaque nat

text \<open>
  A pointer to a \<^verbatim>\<open>PyTreeTypeRegistry::Registration\<close> is an address; two pointers are
  the same registration exactly when the addresses are equal.
\<close>

type_synonym registration_ptr = nat

text \<open>
  The exceptions the code raises: \<^verbatim>\<open>std::invalid_argument\<close>, \<^verbatim>\<open>std::runtime_error\<close>, the
  internal error of the \<^verbatim>\<open>EXPECT_*\<close> and \<^verbatim>\<open>INTERNAL_ERROR\<close> macros, a failed conversion
  of a host value, an exception raised by the host (comparison or hashing of host
  values), \<^verbatim>\<open>std::out_of_range\<close> of \<^verbatim>\<open>at()\<close>, \<^verbatim>\<open>std::length_error\<close> of \<^verbatim>\<open>resize()\<close>,
  and a step whose behaviour C++ leaves undefined. Messages are kept where they are
  fixed strings (formatted values are left out).
\<close>

datatype error =
    InvalidArgument string
  | RuntimeError string
  | InternalError string
  | CastError
  | HostError
  | OutOfRange
  | LengthError
  | UndefinedBehavior

text \<open>
  \<^verbatim>\<open>struct Node\<close>. The type \<^verbatim>\<open>ssize_t\<close> is modelled by \<open>int\<close>: the counts of a spec that
  satisfies the invariants of the data model are bounded by the length of a vector that
  exists in memory, and so are the products and sums computed from them.
\<close>

record Node =
  kind :: PyTreeKind
  arity :: int
  node_data :: "pyobj option"
  node_entries :: "pyobj option"
  custom :: "registration_ptr option"
  num_leaves :: int
  num_nodes :: int

record PyTreeSpec =
  m_traversal :: "Node list"
  m_none_is_leaf :: bool
  m_namespace :: string

text \<open>The default member initialisers of \<^verbatim>\<open>struct Node\<close> and of \<^verbatim>\<open>PyTreeSpec\<close>.\<close>

definition default_Node :: Node where
  "default_Node =
     \<lparr>kind = Leaf, arity = 0, node_data = None, node_entries = None, custom = None,
      num_leaves = 0, num_nodes = 0\<rparr>"

definition default_PyTreeSpec :: PyTreeSpec where
  "default_PyTreeSpec = \<lparr>m_traversal = [], m_none_is_leaf = False, m_namespace = []\<rparr>"

section \<open>Counts\<close>

text \<open>
  \<^verbatim>\<open>PyTreeSpec::num_leaves\<close> raises on an empty traversal, \<^verbatim>\<open>PyTreeSpec::num_nodes\<close> is the
  size of the vector, \<^verbatim>\<open>PyTreeSpec::num_children\<close> is the arity of the root.
\<close>

definition PyTreeSpec_num_leaves :: "PyTreeSpec \<Rightarrow> error + int" where
  "PyTreeSpec_num_leaves t =
     (if m_traversal t = [] then Inl (InternalError ''The tree node traversal is empty.'')
      else Inr (num_leaves (last (m_traversal t))))"

definition PyTreeSpec_num_nodes :: "PyTreeSpec \<Rightarrow> int" where
  "PyTreeSpec_num_nodes t = int (length (m_traversal t))"

definition PyTreeSpec_num_children :: "PyTreeSpec \<Rightarrow> error + int" where
  "PyTreeSpec_num_children t =
     (if m_traversal t = [] then Inl (InternalError ''The tree node traversal is empty.'')
      else Inr (arity (last (m_traversal t))))"

section \<open>Equality\<close>

text \<open>
  \<^verbatim>\<open>PyTreeSpec::operator==\<close>. The comparison of two host values (\<^verbatim>\<open>not_equal\<close> of pybind11)
  belongs to the host and is a parameter \<open>ne\<close>; it may raise. The loop walks both
  traversals in lockstep; it is entered only when they have the same size. A node pair
  that passes the comparisons must also pass the two \<^verbatim>\<open>EXPECT_EQ\<close> on the counts, which
  raise an internal error otherwise.
\<close>

fun nodes_equal :: "(pyobj \<Rightarrow> pyobj \<Rightarrow> error + bool) \<Rightarrow> Node list \<Rightarrow> Node list \<Rightarrow> error + bool"
where
  "nodes_equal ne [] bs = Inr True"
| "nodes_equal ne (a # as) [] = Inl UndefinedBehavior"
| "nodes_equal ne (a # as) (b # bs) =
     (if kind a \<noteq> kind b \<or> arity a \<noteq> arity b
         \<or> (node_data a = None) \<noteq> (node_data b = None) \<or> custom a \<noteq> custom b
      then Inr False
      else
        (case (case (node_data a, node_data b) of
                 (Some x, Some y) \<Rightarrow> ne x y
               | _ \<Rightarrow> Inr False) of
           Inl e \<Rightarrow> Inl e
         | Inr True \<Rightarrow> Inr False
         | Inr False \<Rightarrow>
             if num_leaves a \<noteq> num_leaves b then Inl (InternalError ''EXPECT_EQ'')
             else if num_nodes a \<noteq> num_nodes b then Inl (InternalError ''EXPECT_EQ'')
             else nodes_equal ne as bs))"

definition operator_eq ::
  "(pyobj \<Rightarrow> pyobj \<Rightarrow> error + bool) \<Rightarrow> PyTreeSpec \<Rightarrow> PyTreeSpec \<Rightarrow> error + bool"
where
  "operator_eq ne self other =
     (if length (m_traversal self) \<noteq> length (m_traversal other)
         \<or> m_none_is_leaf self \<noteq> m_none_is_leaf other
      then Inr False
      else if m_namespace self \<noteq> [] \<and> m_namespace other \<noteq> []
              \<and> m_namespace self \<noteq> m_namespace other
      then Inr False
      else nodes_equal ne (m_traversal self) (m_traversal other))"

section \<open>Composition\<close>

text \<open>
  The loop of \<^verbatim>\<open>PyTreeSpec::Compose\<close>: a \<^verbatim>\<open>Leaf\<close> of the outer traversal is replaced by a
  copy of the whole inner traversal, any other node is copied with updated counts.
\<close>

fun compose_loop :: "Node list \<Rightarrow> int \<Rightarrow> int \<Rightarrow> Node list \<Rightarrow> Node list" where
  "compose_loop inner num_inner_leaves num_inner_nodes [] = []"
| "compose_loop inner num_inner_leaves num_inner_nodes (node # rest) =
     (if kind node = Leaf then inner
      else [node\<lparr>num_leaves := num_leaves node * num_inner_leaves,
                 num_nodes := (num_nodes node - num_leaves node)
                                + num_leaves node * num_inner_nodes\<rparr>])
     @ compose_loop inner num_inner_leaves num_inner_nodes rest"

definition Compose :: "PyTreeSpec \<Rightarrow> PyTreeSpec \<Rightarrow> error + PyTreeSpec" where
  "Compose self inner_treespec =
     (if m_none_is_leaf self \<noteq> m_none_is_leaf inner_treespec
      then Inl (InvalidArgument ''PyTreeSpecs must have the same none_is_leaf value.'')
      else if m_namespace self \<noteq> [] \<and> m_namespace inner_treespec \<noteq> []
              \<and> m_namespace self \<noteq> m_namespace inner_treespec
      then Inl (InvalidArgument ''PyTreeSpecs must have the same namespace.'')
      else
        (case PyTreeSpec_num_leaves self of
           Inl e \<Rightarrow> Inl e
         | Inr num_outer_leaves \<Rightarrow>
        (case PyTreeSpec_num_leaves inner_treespec of
           Inl e \<Rightarrow> Inl e
         | Inr num_inner_leaves \<Rightarrow>
           (let num_outer_nodes = PyTreeSpec_num_nodes self;
                num_inner_nodes = PyTreeSpec_num_nodes inner_treespec;
                treespec =
                  \<lparr>m_traversal =
                     compose_loop (m_traversal inner_treespec) num_inner_leaves num_inner_nodes
                       (m_traversal self),
                   m_none_is_leaf = m_none_is_leaf self,
                   m_namespace =
                     (if m_namespace inner_treespec = [] then m_namespace self
                      else m_namespace inner_treespec)\<rparr>;
                root = last (m_traversal treespec)
            in if num_leaves root \<noteq> num_outer_leaves * num_inner_leaves
               then Inl (InternalError ''Number of composed tree leaves mismatch.'')
               else if num_nodes root
                         \<noteq> (num_outer_nodes - num_outer_leaves)
                             + num_outer_leaves * num_inner_nodes
               then Inl (InternalError ''Number of composed tree nodes mismatch.'')
               else Inr treespec))))"

section \<open>Constructors\<close>

text \<open>
  \<^verbatim>\<open>PyTreeSpec::Tuple\<close>, \<^verbatim>\<open>PyTreeSpec::Leaf\<close> and \<^verbatim>\<open>PyTreeSpec::None\<close>; they carry the
  prefix of their class here, since \<open>Tuple\<close> and \<open>Leaf\<close> are kinds. The first loop of
  \<^verbatim>\<open>Tuple\<close> checks the flags and settles the namespace, the second one concatenates the
  traversals and adds up the leaves (\<^verbatim>\<open>num_leaves()\<close> raises on an empty traversal).
\<close>

fun tuple_check :: "bool \<Rightarrow> string \<Rightarrow> PyTreeSpec list \<Rightarrow> error + string" where
  "tuple_check none_is_leaf registry_namespace [] = Inr registry_namespace"
| "tuple_check none_is_leaf registry_namespace (treespec # rest) =
     (if m_none_is_leaf treespec \<noteq> none_is_leaf
      then Inl (InvalidArgument ''Expected treespecs with the given node_is_leaf.'')
      else if m_namespace treespec \<noteq> []
      then (if registry_namespace = []
            then tuple_check none_is_leaf (m_namespace treespec) rest
            else if registry_namespace \<noteq> m_namespace treespec
            then Inl (InvalidArgument ''Expected treespecs with the same namespace.'')
            else tuple_check none_is_leaf registry_namespace rest)
      else tuple_check none_is_leaf registry_namespace rest)"

fun tuple_collect :: "PyTreeSpec list \<Rightarrow> Node list \<Rightarrow> int \<Rightarrow> error + (Node list \<times> int)" where
  "tuple_collect [] out_traversal leaves = Inr (out_traversal, leaves)"
| "tuple_collect (treespec # rest) out_traversal leaves =
     (case PyTreeSpec_num_leaves treespec of
        Inl e \<Rightarrow> Inl e
      | Inr k \<Rightarrow> tuple_collect rest (out_traversal @ m_traversal treespec) (leaves + k))"

definition PyTreeSpec_Tuple :: "PyTreeSpec list \<Rightarrow> bool \<Rightarrow> error + PyTreeSpec" where
  "PyTreeSpec_Tuple treespecs none_is_leaf =
     (case tuple_check none_is_leaf [] treespecs of
        Inl e \<Rightarrow> Inl e
      | Inr registry_namespace \<Rightarrow>
          (case tuple_collect treespecs [] 0 of
             Inl e \<Rightarrow> Inl e
           | Inr (out_traversal, leaves) \<Rightarrow>
               Inr \<lparr>m_traversal =
                      out_traversal @
                      [default_Node\<lparr>kind := Tuple,
                                    arity := int (length treespecs),
                                    num_leaves := leaves,
                                    num_nodes := int (length out_traversal) + 1\<rparr>],
                    m_none_is_leaf = none_is_leaf,
                    m_namespace = registry_namespace\<rparr>))"

definition PyTreeSpec_Leaf :: "bool \<Rightarrow> PyTreeSpec" where
  "PyTreeSpec_Leaf none_is_leaf =
     default_PyTreeSpec
       \<lparr>m_traversal := [default_Node\<lparr>kind := Leaf, arity := 0, num_leaves := 1, num_nodes := 1\<rparr>],
        m_none_is_leaf := none_is_leaf\<rparr>"

definition PyTreeSpec_None :: "bool \<Rightarrow> PyTreeSpec" where
  "PyTreeSpec_None none_is_leaf =
     (if none_is_leaf then PyTreeSpec_Leaf none_is_leaf
      else default_PyTreeSpec
             \<lparr>m_traversal :=
                [default_Node\<lparr>kind := NoneKind, arity := 0, num_leaves := 0, num_nodes := 1\<rparr>],
              m_none_is_leaf := none_is_leaf\<rparr>)"

section \<open>Children\<close>

text \<open>
  The loop of \<^verbatim>\<open>PyTreeSpec::Children\<close> runs \<open>i\<close> from \<open>arity - 1\<close> down to \<open>0\<close>; the first
  numeric argument of \<open>children_loop\<close> is the number of iterations left. \<^verbatim>\<open>at(pos - 1)\<close>
  raises outside the vector, \<^verbatim>\<open>EXPECT_GE\<close> raises when the child would start before the
  vector, and \<^verbatim>\<open>std::copy\<close> on a range whose end lies before its start is undefined.
  \<open>children[i]\<close> is filled from the last child to the first, so each slice is put in
  front of those already found.
\<close>

fun children_loop ::
  "PyTreeSpec \<Rightarrow> nat \<Rightarrow> int \<Rightarrow> PyTreeSpec list \<Rightarrow> error + (PyTreeSpec list \<times> int)"
where
  "children_loop self 0 pos children = Inr (children, pos)"
| "children_loop self (Suc i) pos children =
     (if pos - 1 < 0 \<or> int (length (m_traversal self)) \<le> pos - 1 then Inl OutOfRange
      else
        (let node = m_traversal self ! nat (pos - 1) in
           if pos < num_nodes node
           then Inl (InternalError ''PyTreeSpec::Children() walked off start of array.'')
           else if num_nodes node < 0 then Inl UndefinedBehavior
           else children_loop self i (pos - num_nodes node)
                  (\<lparr>m_traversal =
                      take (nat (num_nodes node))
                        (drop (nat (pos - num_nodes node)) (m_traversal self)),
                    m_none_is_leaf = m_none_is_leaf self,
                    m_namespace = m_namespace self\<rparr> # children)))"

definition Children :: "PyTreeSpec \<Rightarrow> error + PyTreeSpec list" where
  "Children self =
     (if m_traversal self = [] then Inr []
      else
        (let root = last (m_traversal self) in
           if arity root < 0 then Inl LengthError
           else
             (case children_loop self (nat (arity root))
                     (int (length (m_traversal self)) - 1) [] of
                Inl e \<Rightarrow> Inl e
              | Inr (children, pos) \<Rightarrow>
                  if pos \<noteq> 0
                  then Inl (InternalError ''`pos != 0` at end of PyTreeSpec::Children().'')
                  else Inr children)))"

section \<open>Hashing\<close>

text \<open>
  \<^verbatim>\<open>AbslHashValue\<close> is a template over the hash state \<^verbatim>\<open>H\<close> of the hashing library. The
  state is a type variable \<open>'h\<close> here, and \<^verbatim>\<open>H::combine\<close> on one value is the parameter
  \<open>combine\<close>; \<^verbatim>\<open>H::combine(h, v1, ..., vn)\<close> feeds the values from left to right. The
  values fed are tagged by their C++ type.
\<close>

datatype hash_atom =
    HashKind PyTreeKind
  | HashSsize int
  | HashPtr "registration_ptr option"
  | HashBool bool
  | HashString string
  | HashSize nat

definition combine_all :: "('h \<Rightarrow> hash_atom \<Rightarrow> 'h) \<Rightarrow> 'h \<Rightarrow> hash_atom list \<Rightarrow> 'h" where
  "combine_all combine h vs = foldl combine h vs"

text \<open>
  The loop over the keys of a mapping node. \<open>hash_of2 a b\<close> stands for
  \<^verbatim>\<open>py::ssize_t_cast(absl::HashOf(a, b))\<close> and \<open>py_hash\<close> for \<^verbatim>\<open>py::hash\<close>, which raises on an
  unhashable value.
\<close>

fun hash_keys ::
  "(int \<Rightarrow> int \<Rightarrow> int) \<Rightarrow> (pyobj \<Rightarrow> error + int) \<Rightarrow> int \<Rightarrow> pyobj list \<Rightarrow> error + int"
where
  "hash_keys hash_of2 py_hash data_hash [] = Inr data_hash"
| "hash_keys hash_of2 py_hash data_hash (key # keys) =
     (case py_hash key of
        Inl e \<Rightarrow> Inl e
      | Inr hk \<Rightarrow> hash_keys hash_of2 py_hash (hash_of2 data_hash hk) keys)"

text \<open>
  The \<^verbatim>\<open>switch\<close> of \<^verbatim>\<open>AbslHashValue(H, const Node&)\<close> that computes \<^verbatim>\<open>data_hash\<close>.
  \<^verbatim>\<open>GET_SIZE\<close> and \<^verbatim>\<open>GET_ITEM_BORROW\<close> are unchecked macros of the host: applied to a
  value of another type (or to no object) their behaviour is undefined.
\<close>

definition node_data_hash ::
  "(int \<Rightarrow> int \<Rightarrow> int) \<Rightarrow> (pyobj \<Rightarrow> error + int) \<Rightarrow> Node \<Rightarrow> error + int"
where
  "node_data_hash hash_of2 py_hash n =
     (if kind n = Custom then Inr 0
      else if kind n = DefaultDict then
        (case node_data n of
           Some (PyTuple items) \<Rightarrow>
             if length items \<noteq> 2 then Inl (InternalError ''Number of auxiliary data mismatch.'')
             else
               (case items ! 1 of
                  PyList keys \<Rightarrow>
                    if int (length keys) \<noteq> arity n
                    then Inl (InternalError ''Number of keys and entries does not match.'')
                    else
                      (case py_hash (items ! 0) of
                         Inl e \<Rightarrow> Inl e
                       | Inr data_hash \<Rightarrow> hash_keys hash_of2 py_hash data_hash keys)
                | _ \<Rightarrow> Inl UndefinedBehavior)
         | _ \<Rightarrow> Inl UndefinedBehavior)
      else if kind n = Dict \<or> kind n = OrderedDict then
        (case node_data n of
           Some (PyList keys) \<Rightarrow>
             if int (length keys) \<noteq> arity n
             then Inl (InternalError ''Number of keys and entries does not match.'')
             else hash_keys hash_of2 py_hash 0 keys
         | _ \<Rightarrow> Inl UndefinedBehavior)
      else py_hash (case node_data n of Some d \<Rightarrow> d | None \<Rightarrow> PyNone))"

definition AbslHashValue_Node ::
  "('h \<Rightarrow> hash_atom \<Rightarrow> 'h) \<Rightarrow> (int \<Rightarrow> int \<Rightarrow> int) \<Rightarrow> (pyobj \<Rightarrow> error + int)
     \<Rightarrow> 'h \<Rightarrow> Node \<Rightarrow> error + 'h"
where
  "AbslHashValue_Node combine hash_of2 py_hash h n =
     (case node_data_hash hash_of2 py_hash n of
        Inl e \<Rightarrow> Inl e
      | Inr data_hash \<Rightarrow>
          Inr (combine_all combine h
                 [HashKind (kind n), HashSsize (arity n), HashPtr (custom n),
                  HashSsize (num_leaves n), HashSsize (num_nodes n), HashSsize data_hash]))"

text \<open>
  \<^verbatim>\<open>AbslHashValue(H, const PyTreeSpec&)\<close> combines the vector of nodes, the flag and the
  namespace. The library hashes a vector by feeding its elements in order, each through
  the function above, and then its size.
\<close>

fun hash_nodes ::
  "('h \<Rightarrow> hash_atom \<Rightarrow> 'h) \<Rightarrow> (int \<Rightarrow> int \<Rightarrow> int) \<Rightarrow> (pyobj \<Rightarrow> error + int)
     \<Rightarrow> 'h \<Rightarrow> Node list \<Rightarrow> error + 'h"
where
  "hash_nodes combine hash_of2 py_hash h [] = Inr h"
| "hash_nodes combine hash_of2 py_hash h (n # ns) =
     (case AbslHashValue_Node combine hash_of2 py_hash h n of
        Inl e \<Rightarrow> Inl e
      | Inr h' \<Rightarrow> hash_nodes combine hash_of2 py_hash h' ns)"

definition AbslHashValue_PyTreeSpec ::
  "('h \<Rightarrow> hash_atom \<Rightarrow> 'h) \<Rightarrow> (int \<Rightarrow> int \<Rightarrow> int) \<Rightarrow> (pyobj \<Rightarrow> error + int)
     \<Rightarrow> 'h \<Rightarrow> PyTreeSpec \<Rightarrow> error + 'h"
where
  "AbslHashValue_PyTreeSpec combine hash_of2 py_hash h t =
     (case hash_nodes combine hash_of2 py_hash h (m_traversal t) of
        Inl e \<Rightarrow> Inl e
      | Inr h' \<Rightarrow>
          Inr (combine_all combine h'
                 [HashSize (length (m_traversal t)), HashBool (m_none_is_leaf t),
                  HashString (m_namespace t)]))"

text \<open>
  The \<^verbatim>\<open>__hash__\<close> of the binding (\<^verbatim>\<open>src/optree.cpp\<close>) is \<^verbatim>\<open>absl::HashOf(t)\<close>: the library
  starts from a state \<open>seed\<close>, runs the function above and turns the final state into
  a number by \<open>finalize\<close>.
\<close>

definition PyTreeSpec_hash ::
  "('h \<Rightarrow> hash_atom \<Rightarrow> 'h) \<Rightarrow> (int \<Rightarrow> int \<Rightarrow> int) \<Rightarrow> (pyobj \<Rightarrow> error + int)
     \<Rightarrow> 'h \<Rightarrow> ('h \<Rightarrow> int) \<Rightarrow> PyTreeSpec \<Rightarrow> error + int"
where
  "PyTreeSpec_hash combine hash_of2 py_hash seed finalize t =
     (case AbslHashValue_PyTreeSpec combine hash_of2 py_hash seed t of
        Inl e \<Rightarrow> Inl e
      | Inr h \<Rightarrow> Inr (finalize h))"

section \<open>Pickling\<close>

text \<open>
  Modelled from the spec: the declaration of the enumeration \<^verbatim>\<open>PyTreeKind\<close> is in
  \<^verbatim>\<open>include/registry.h\<close>, which is not among the sources, and the spec (section 4.11)
  only speaks of a kind ordinal. \<open>kind_ordinal\<close> is \<^verbatim>\<open>static_cast<ssize_t>(kind)\<close> with
  the kinds numbered from \<open>Custom = 0\<close> in the order of the datatype, and
  \<open>kind_of_ordinal\<close> is \<^verbatim>\<open>static_cast<PyTreeKind>\<close>, with no kind for any other number
  (the \<^verbatim>\<open>default\<close> branch of the \<^verbatim>\<open>switch\<close>). The theorems below rest only on distinct
  kinds having distinct ordinals.
\<close>

fun kind_ordinal :: "PyTreeKind \<Rightarrow> int" where
  "kind_ordinal Custom = 0"
| "kind_ordinal Leaf = 1"
| "kind_ordinal NoneKind = 2"
| "kind_ordinal Tuple = 3"
| "kind_ordinal List = 4"
| "kind_ordinal Dict = 5"
| "kind_ordinal NamedTuple = 6"
| "kind_ordinal OrderedDict = 7"
| "kind_ordinal DefaultDict = 8"
| "kind_ordinal Deque = 9"
| "kind_ordinal StructSequence = 10"

definition kind_of_ordinal :: "int \<Rightarrow> PyTreeKind option" where
  "kind_of_ordinal k =
     (if k = 0 then Some Custom else if k = 1 then Some Leaf
      else if k = 2 then Some NoneKind else if k = 3 then Some Tuple
      else if k = 4 then Some List else if k = 5 then Some Dict
      else if k = 6 then Some NamedTuple else if k = 7 then Some OrderedDict
      else if k = 8 then Some DefaultDict else if k = 9 then Some Deque
      else if k = 10 then Some StructSequence else None)"

text \<open>
  \<^verbatim>\<open>PyTreeSpec::ToPicklable\<close>. \<open>reg_type p\<close> is \<^verbatim>\<open>p->type\<close>, the type object of the
  registration at address \<open>p\<close>; the registry is not among the sources and is a
  parameter.
\<close>

definition node_state :: "(registration_ptr \<Rightarrow> pyobj) \<Rightarrow> Node \<Rightarrow> pyobj" where
  "node_state reg_type node =
     PyTuple
       [PyInt (kind_ordinal (kind node)),
        PyInt (arity node),
        (case node_data node of Some d \<Rightarrow> d | None \<Rightarrow> PyNone),
        (case node_entries node of Some e \<Rightarrow> e | None \<Rightarrow> PyNone),
        (case custom node of Some p \<Rightarrow> reg_type p | None \<Rightarrow> PyNone),
        PyInt (num_leaves node),
        PyInt (num_nodes node)]"

definition ToPicklable :: "(registration_ptr \<Rightarrow> pyobj) \<Rightarrow> PyTreeSpec \<Rightarrow> pyobj" where
  "ToPicklable reg_type t =
     PyTuple
       [PyTuple (map (node_state reg_type) (m_traversal t)),
        PyBool (m_none_is_leaf t),
        PyStr (m_namespace t)]"

text \<open>
  The conversions of host values that \<^verbatim>\<open>FromPicklableImpl\<close> asks of pybind11. A value of
  the requested type converts to itself; \<^verbatim>\<open>cast<py::tuple>\<close> and \<^verbatim>\<open>cast<py::list>\<close> also
  convert a list or a tuple into the other. An integer must fit \<^verbatim>\<open>ssize_t\<close> (64 bits).
  Any other value is a failed conversion here.
\<close>

definition is_ssize_t :: "int \<Rightarrow> bool" where
  "is_ssize_t i \<longleftrightarrow> - (2 ^ 63) \<le> i \<and> i < 2 ^ 63"

fun cast_ssize_t :: "pyobj \<Rightarrow> error + int" where
  "cast_ssize_t (PyInt i) = (if is_ssize_t i then Inr i else Inl CastError)"
| "cast_ssize_t _ = Inl CastError"

fun cast_bool :: "pyobj \<Rightarrow> error + bool" where
  "cast_bool (PyBool b) = Inr b"
| "cast_bool _ = Inl CastError"

fun cast_string :: "pyobj \<Rightarrow> error + string" where
  "cast_string (PyStr s) = Inr s"
| "cast_string _ = Inl CastError"

fun cast_items :: "pyobj \<Rightarrow> error + pyobj list" where
  "cast_items (PyTuple xs) = Inr xs"
| "cast_items (PyList xs) = Inr xs"
| "cast_items _ = Inl CastError"

fun cast_type :: "pyobj \<Rightarrow> error + pyobj" where
  "cast_type (PyType n) = Inr (PyType n)"
| "cast_type _ = Inl CastError"

text \<open>
  The body of the loop of \<^verbatim>\<open>FromPicklableImpl\<close> for one node tuple \<open>item\<close>.
  \<open>lookup none_is_leaf type ns\<close> is \<^verbatim>\<open>PyTreeTypeRegistry::Lookup<NoneIsLeaf>(type, ns)\<close>,
  with \<open>None\<close> for the null pointer.
\<close>

definition decode_node_data :: "PyTreeKind \<Rightarrow> pyobj \<Rightarrow> error + pyobj option" where
  "decode_node_data k d =
     (if k = Leaf \<or> k = NoneKind \<or> k = Tuple \<or> k = List then
        (if d \<noteq> PyNone then Inl (RuntimeError ''Malformed pickled PyTreeSpec.'')
         else Inr None)
      else if k = Dict \<or> k = OrderedDict then
        (case cast_items d of Inl e \<Rightarrow> Inl e | Inr xs \<Rightarrow> Inr (Some (PyList xs)))
      else if k = NamedTuple \<or> k = StructSequence then
        (case cast_type d of Inl e \<Rightarrow> Inl e | Inr ty \<Rightarrow> Inr (Some ty))
      else Inr (Some d))"

definition decode_custom ::
  "(bool \<Rightarrow> pyobj \<Rightarrow> string \<Rightarrow> registration_ptr option) \<Rightarrow> bool \<Rightarrow> string \<Rightarrow> PyTreeKind
     \<Rightarrow> pyobj \<Rightarrow> pyobj \<Rightarrow> error + (pyobj option \<times> registration_ptr option)"
where
  "decode_custom lookup none_is_leaf registry_namespace k entries ty =
     (if k = Custom then
        (case (if entries \<noteq> PyNone
               then (case cast_items entries of
                       Inl e \<Rightarrow> Inl e
                     | Inr xs \<Rightarrow> Inr (Some (PyTuple xs)))
               else Inr None) of
           Inl e \<Rightarrow> Inl e
         | Inr node_entries' \<Rightarrow>
             (case (if ty = PyNone then None else lookup none_is_leaf ty registry_namespace) of
                None \<Rightarrow> Inl (RuntimeError ''Unknown custom type in pickled PyTreeSpec.'')
              | Some p \<Rightarrow> Inr (node_entries', Some p)))
      else if entries \<noteq> PyNone \<or> ty \<noteq> PyNone
      then Inl (RuntimeError ''Malformed pickled PyTreeSpec.'')
      else Inr (None, None))"

definition decode_node ::
  "(bool \<Rightarrow> pyobj \<Rightarrow> string \<Rightarrow> registration_ptr option) \<Rightarrow> bool \<Rightarrow> string \<Rightarrow> pyobj
     \<Rightarrow> error + Node"
where
  "decode_node lookup none_is_leaf registry_namespace item =
     (case cast_items item of
        Inl e \<Rightarrow> Inl e
      | Inr t \<Rightarrow>
          if length t \<noteq> 7 then Inl (RuntimeError ''Malformed pickled PyTreeSpec.'')
          else
            (case cast_ssize_t (t ! 0) of
               Inl e \<Rightarrow> Inl e
             | Inr ordinal \<Rightarrow>
            (case cast_ssize_t (t ! 1) of
               Inl e \<Rightarrow> Inl e
             | Inr arity' \<Rightarrow>
            (case kind_of_ordinal ordinal of
               None \<Rightarrow> Inl (InternalError ''Unreachable code.'')
             | Some k \<Rightarrow>
            (case decode_node_data k (t ! 2) of
               Inl e \<Rightarrow> Inl e
             | Inr node_data' \<Rightarrow>
            (case decode_custom lookup none_is_leaf registry_namespace k (t ! 3) (t ! 4) of
               Inl e \<Rightarrow> Inl e
             | Inr (node_entries', custom') \<Rightarrow>
            (case cast_ssize_t (t ! 5) of
               Inl e \<Rightarrow> Inl e
             | Inr num_leaves' \<Rightarrow>
            (case cast_ssize_t (t ! 6) of
               Inl e \<Rightarrow> Inl e
             | Inr num_nodes' \<Rightarrow>
                 Inr \<lparr>kind = k, arity = arity', node_data = node_data',
                      node_entries = node_entries', custom = custom',
                      num_leaves = num_leaves', num_nodes = num_nodes'\<rparr>))))))))"

fun decode_nodes ::
  "(bool \<Rightarrow> pyobj \<Rightarrow> string \<Rightarrow> registration_ptr option) \<Rightarrow> bool \<Rightarrow> string \<Rightarrow> pyobj list
     \<Rightarrow> error + Node list"
where
  "decode_nodes lookup none_is_leaf registry_namespace [] = Inr []"
| "decode_nodes lookup none_is_leaf registry_namespace (item # items) =
     (case decode_node lookup none_is_leaf registry_namespace item of
        Inl e \<Rightarrow> Inl e
      | Inr node \<Rightarrow>
          (case decode_nodes lookup none_is_leaf registry_namespace items of
             Inl e \<Rightarrow> Inl e
           | Inr nodes \<Rightarrow> Inr (node # nodes)))"

definition FromPicklableImpl ::
  "(bool \<Rightarrow> pyobj \<Rightarrow> string \<Rightarrow> registration_ptr option) \<Rightarrow> pyobj \<Rightarrow> error + PyTreeSpec"
where
  "FromPicklableImpl lookup picklable =
     (case picklable of
        PyTuple state \<Rightarrow>
          if length state \<noteq> 3 then Inl (RuntimeError ''Malformed pickled PyTreeSpec.'')
          else
            (case cast_bool (state ! 1) of
               Inl e \<Rightarrow> Inl e
             | Inr none_is_leaf \<Rightarrow>
            (case cast_string (state ! 2) of
               Inl e \<Rightarrow> Inl e
             | Inr registry_namespace \<Rightarrow>
            (case cast_items (state ! 0) of
               Inl e \<Rightarrow> Inl e
             | Inr node_states \<Rightarrow>
            (case decode_nodes lookup none_is_leaf registry_namespace node_states of
               Inl e \<Rightarrow> Inl e
             | Inr nodes \<Rightarrow>
                 Inr \<lparr>m_traversal = nodes, m_none_is_leaf = none_is_leaf,
                      m_namespace = registry_namespace\<rparr>))))
      | _ \<Rightarrow> Inl (RuntimeError ''Malformed pickled PyTreeSpec.''))"

definition FromPicklable ::
  "(bool \<Rightarrow> pyobj \<Rightarrow> string \<Rightarrow> registration_ptr option) \<Rightarrow> pyobj \<Rightarrow> error + PyTreeSpec"
where
  "FromPicklable lookup picklable = FromPicklableImpl lookup picklable"

section \<open>Invariants of the data model\<close>

text \<open>
  Invariants 1 and 3 of the data model: the traversal is not empty, the root's
  \<open>num_leaves\<close> is the number of \<open>Leaf\<close> nodes and its \<open>num_nodes\<close> is the length of the
  traversal.
\<close>

definition count_leaves :: "Node list \<Rightarrow> nat" where
  "count_leaves ns = length (filter (\<lambda>n. kind n = Leaf) ns)"

definition count_invariants :: "PyTreeSpec \<Rightarrow> bool" where
  "count_invariants t \<longleftrightarrow>
     m_traversal t \<noteq> []
     \<and> num_leaves (last (m_traversal t)) = int (count_leaves (m_traversal t))
     \<and> num_nodes (last (m_traversal t)) = int (length (m_traversal t))"

text \<open>
  Invariants 2 and 4: every node closes a subtree. The check replays the traversal as
  \<^verbatim>\<open>ToString\<close> and \<^verbatim>\<open>Unflatten\<close> do, with a stack that holds, for each finished subtree,
  the pair of \<open>num_leaves\<close> and \<open>num_nodes\<close> of its root (top of the stack first). A node
  takes its \<open>arity\<close> children from the stack; \<open>Leaf\<close> and \<open>NoneKind\<close> take none; its
  counts must be those of the children put together.
\<close>

definition replay_step :: "Node \<Rightarrow> (int \<times> int) list \<Rightarrow> (int \<times> int) list option" where
  "replay_step n agenda =
     (if arity n < 0 \<or> int (length agenda) < arity n then None
      else if (kind n = Leaf \<or> kind n = NoneKind) \<and> arity n \<noteq> 0 then None
      else
        (let children = take (nat (arity n)) agenda in
           if num_nodes n \<noteq> 1 + sum_list (map snd children) then None
           else if num_leaves n
                     \<noteq> (if kind n = Leaf then 1 else sum_list (map fst children))
           then None
           else Some ((num_leaves n, num_nodes n) # drop (nat (arity n)) agenda)))"

fun replay :: "Node list \<Rightarrow> (int \<times> int) list \<Rightarrow> (int \<times> int) list option" where
  "replay [] agenda = Some agenda"
| "replay (n # ns) agenda =
     (case replay_step n agenda of None \<Rightarrow> None | Some agenda' \<Rightarrow> replay ns agenda')"

definition well_formed_structure :: "PyTreeSpec \<Rightarrow> bool" where
  "well_formed_structure t \<longleftrightarrow>
     (case replay (m_traversal t) [] of Some [root] \<Rightarrow> True | _ \<Rightarrow> False)"

text \<open>
  The fields of a node as the data model and invariant 7 have them, which is also what
  \<^verbatim>\<open>FromPicklableImpl\<close> accepts: no auxiliary data for \<open>Leaf\<close>, \<open>NoneKind\<close>, \<open>Tuple\<close> and
  \<open>List\<close>; a list of keys for \<open>Dict\<close> and \<open>OrderedDict\<close>; a type object for \<open>NamedTuple\<close>
  and \<open>StructSequence\<close>; some object for \<open>DefaultDict\<close>, \<open>Deque\<close> and \<open>Custom\<close>; a
  registration exactly for \<open>Custom\<close>; path entries only for \<open>Custom\<close>, as a tuple; and
  numbers that are values of \<^verbatim>\<open>ssize_t\<close>.
\<close>

definition node_data_ok :: "Node \<Rightarrow> bool" where
  "node_data_ok n \<longleftrightarrow>
     (if kind n = Leaf \<or> kind n = NoneKind \<or> kind n = Tuple \<or> kind n = List
      then node_data n = None
      else if kind n = Dict \<or> kind n = OrderedDict
      then (case node_data n of Some (PyList keys) \<Rightarrow> True | _ \<Rightarrow> False)
      else if kind n = NamedTuple \<or> kind n = StructSequence
      then (case node_data n of Some (PyType ty) \<Rightarrow> True | _ \<Rightarrow> False)
      else node_data n \<noteq> None)"

definition node_fields_ok :: "Node \<Rightarrow> bool" where
  "node_fields_ok n \<longleftrightarrow>
     node_data_ok n
     \<and> (kind n = Custom) = (custom n \<noteq> None)
     \<and> (case node_entries n of
          None \<Rightarrow> True
        | Some (PyTuple es) \<Rightarrow> kind n = Custom
        | Some _ \<Rightarrow> False)
     \<and> is_ssize_t (arity n) \<and> is_ssize_t (num_leaves n) \<and> is_ssize_t (num_nodes n)"

definition well_formed :: "PyTreeSpec \<Rightarrow> bool" where
  "well_formed t \<longleftrightarrow> well_formed_structure t \<and> list_all node_fields_ok (m_traversal t)"

text \<open>
  The registry resolves the type of every registration a spec points to back to that
  registration, in the namespace and mode of the spec (the registry is populated for
  the spec).
\<close>

definition node_resolves ::
  "(bool \<Rightarrow> pyobj \<Rightarrow> string \<Rightarrow> registration_ptr option) \<Rightarrow> (registration_ptr \<Rightarrow> pyobj)
     \<Rightarrow> bool \<Rightarrow> string \<Rightarrow> Node \<Rightarrow> bool"
where
  "node_resolves lookup reg_type none_is_leaf ns n \<longleftrightarrow>
     (case custom n of
        None \<Rightarrow> True
      | Some p \<Rightarrow> reg_type p \<noteq> PyNone \<and> lookup none_is_leaf (reg_type p) ns = Some p)"

definition registry_resolves ::
  "(bool \<Rightarrow> pyobj \<Rightarrow> string \<Rightarrow> registration_ptr option) \<Rightarrow> (registration_ptr \<Rightarrow> pyobj)
     \<Rightarrow> PyTreeSpec \<Rightarrow> bool"
where
  "registry_resolves lookup reg_type t \<longleftrightarrow>
     list_all (node_resolves lookup reg_type (m_none_is_leaf t) (m_namespace t))
       (m_traversal t)"

text \<open>
  The host reports no difference between an object and itself (the comparison behind
  \<^verbatim>\<open>not_equal\<close> answers on identity before it asks the objects).
\<close>

definition host_reflexive :: "(pyobj \<Rightarrow> pyobj \<Rightarrow> error + bool) \<Rightarrow> bool" where
  "host_reflexive ne \<longleftrightarrow> (\<forall>x. ne x x = Inr False)"

text \<open>
  Invariant 4: a \<open>Leaf\<close> has no children and counts one leaf and one node, a \<open>NoneKind\<close>
  node has no children and counts no leaf and one node.
\<close>

definition leaf_invariant :: "PyTreeSpec \<Rightarrow> bool" where
  "leaf_invariant t \<longleftrightarrow>
     list_all
       (\<lambda>n. (kind n = Leaf \<longrightarrow> arity n = 0 \<and> num_leaves n = 1 \<and> num_nodes n = 1)
            \<and> (kind n = NoneKind \<longrightarrow> arity n = 0 \<and> num_leaves n = 0 \<and> num_nodes n = 1))
       (m_traversal t)"

text \<open>
  A slice of a traversal closes a subtree with the counts \<open>c\<close> when it is not empty, its
  last node carries these counts, the leaf count is the number of \<open>Leaf\<close> nodes of the
  slice and the node count is its length.
\<close>

definition closes :: "Node list \<Rightarrow> int \<times> int \<Rightarrow> bool" where
  "closes seg c \<longleftrightarrow>
     seg \<noteq> [] \<and> num_leaves (last seg) = fst c \<and> num_nodes (last seg) = snd c
     \<and> fst c = int (count_leaves seg) \<and> snd c = int (length seg)"

section \<open>Notions used in the statements\<close>

text \<open>The root of a spec is the last node of its traversal (\<^verbatim>\<open>m_traversal.back()\<close>).\<close>

definition root :: "PyTreeSpec \<Rightarrow> Node" where
  "root t = last (m_traversal t)"

text \<open>
  What composition with \<open>inner\<close> puts in the place of one node of the outer traversal,
  in the words of section 4.5 of the spec: the inner traversal for a \<open>Leaf\<close>, and for
  any other node a copy whose counts are computed from the counts of the root of
  \<open>inner\<close>.
\<close>

definition compose_node :: "PyTreeSpec \<Rightarrow> Node \<Rightarrow> Node list" where
  "compose_node inner n =
     (if kind n = Leaf then m_traversal inner
      else [n\<lparr>num_leaves := num_leaves n * num_leaves (root inner),
              num_nodes := (num_nodes n - num_leaves n)
                             + num_leaves n * num_nodes (root inner)\<rparr>])"

text \<open>
  Two nodes agree, for \<^verbatim>\<open>operator==\<close>, when they have the same kind, arity and
  registration and their auxiliary data are both absent, or both present and not
  reported different by the host.
\<close>

definition nodes_agree :: "(pyobj \<Rightarrow> pyobj \<Rightarrow> error + bool) \<Rightarrow> Node \<Rightarrow> Node \<Rightarrow> bool" where
  "nodes_agree ne a b \<longleftrightarrow>
     kind a = kind b \<and> arity a = arity b \<and> custom a = custom b
     \<and> (case (node_data a, node_data b) of
          (None, None) \<Rightarrow> True
        | (Some x, Some y) \<Rightarrow> ne x y = Inr False
        | _ \<Rightarrow> False)"

text \<open>
  Two nodes agree, for the hash, when they have the same kind, arity, registration and
  counts and, unless they are \<open>Custom\<close> nodes, the same auxiliary data.
\<close>

definition hash_agree :: "Node \<Rightarrow> Node \<Rightarrow> bool" where
  "hash_agree a b \<longleftrightarrow>
     kind a = kind b \<and> arity a = arity b \<and> custom a = custom b
     \<and> num_leaves a = num_leaves b \<and> num_nodes a = num_nodes b
     \<and> (kind a = Custom \<or> node_data a = node_data b)"

text \<open>
  A child of \<open>s\<close>: a slice of its traversal wrapped with the flag and the namespace of
  \<open>s\<close>, as \<^verbatim>\<open>Children\<close> builds it.
\<close>

definition child_spec :: "PyTreeSpec \<Rightarrow> Node list \<Rightarrow> PyTreeSpec" where
  "child_spec s nodes =
     \<lparr>m_traversal = nodes, m_none_is_leaf = m_none_is_leaf s, m_namespace = m_namespace s\<rparr>"

section \<open>Hosts, hash states and registries of the examples\<close>

text \<open>
  A host for the examples: two values differ exactly when they are different terms,
  and the comparison never raises.
\<close>

definition structural_ne :: "pyobj \<Rightarrow> pyobj \<Rightarrow> error + bool" where
  "structural_ne x y = Inr (x \<noteq> y)"

text \<open>
  A hash state for the examples: the state is the list of the values fed so far, so
  that two states are equal exactly when the same values were fed in the same order.
  Every hash function of the library is a function of this list; \<open>count_fed\<close> is a
  (poor) one. The host hash of the examples is a constant, and two numbers are mixed
  by a polynomial step.
\<close>

definition feed :: "hash_atom list \<Rightarrow> hash_atom \<Rightarrow> hash_atom list" where
  "feed h v = h @ [v]"

definition count_fed :: "hash_atom list \<Rightarrow> int" where
  "count_fed h = int (length h)"

definition constant_py_hash :: "pyobj \<Rightarrow> error + int" where
  "constant_py_hash x = Inr 0"

definition mix2 :: "int \<Rightarrow> int \<Rightarrow> int" where
  "mix2 a b = 31 * a + b"

text \<open>A registry with no registration, for the examples without \<open>Custom\<close> nodes.\<close>

definition empty_registry :: "bool \<Rightarrow> pyobj \<Rightarrow> string \<Rightarrow> registration_ptr option" where
  "empty_registry none_is_leaf ty ns = None"

text \<open>
  A registry with one user registration, at address \<open>0\<close>, for the type \<open>MyNode\<close> (found
  from every namespace and in both modes).
\<close>

definition one_registry :: "bool \<Rightarrow> pyobj \<Rightarrow> string \<Rightarrow> registration_ptr option" where
  "one_registry none_is_leaf ty ns = (if ty = PyType ''MyNode'' then Some 0 else None)"

definition one_reg_type :: "registration_ptr \<Rightarrow> pyobj" where
  "one_reg_type p = PyType ''MyNode''"

section \<open>Example specs\<close>

text \<open>
  The specs of \<open>*\<close>, of the list \<open>[*, *]\<close> and of the tuple \<open>(*, *)\<close>, in the default
  namespace and with \<open>none_is_leaf = False\<close>, as flattening builds them (scenario S4 of
  the spec composes the last two).
\<close>

definition leaf_node :: Node where
  "leaf_node = default_Node\<lparr>kind := Leaf, arity := 0, num_leaves := 1, num_nodes := 1\<rparr>"

definition spec_leaf :: PyTreeSpec where
  "spec_leaf = \<lparr>m_traversal = [leaf_node], m_none_is_leaf = False, m_namespace = []\<rparr>"

definition spec_list2 :: PyTreeSpec where
  "spec_list2 =
     \<lparr>m_traversal =
        [leaf_node, leaf_node,
         default_Node\<lparr>kind := List, arity := 2, num_leaves := 2, num_nodes := 3\<rparr>],
      m_none_is_leaf = False, m_namespace = []\<rparr>"

definition spec_tuple2 :: PyTreeSpec where
  "spec_tuple2 =
     \<lparr>m_traversal =
        [leaf_node, leaf_node,
         default_Node\<lparr>kind := Tuple, arity := 2, num_leaves := 2, num_nodes := 3\<rparr>],
      m_none_is_leaf = False, m_namespace = []\<rparr>"

text \<open>The spec of \<open>((*, *), *)\<close>.\<close>

definition spec_nested :: PyTreeSpec where
  "spec_nested =
     \<lparr>m_traversal =
        [leaf_node, leaf_node,
         default_Node\<lparr>kind := Tuple, arity := 2, num_leaves := 2, num_nodes := 3\<rparr>,
         leaf_node,
         default_Node\<lparr>kind := Tuple, arity := 2, num_leaves := 3, num_nodes := 5\<rparr>],
      m_none_is_leaf = False, m_namespace = []\<rparr>"

text \<open>The spec of \<open>(*, *)\<close> with path entries stored in every node.\<close>

definition spec_tuple2_entries :: PyTreeSpec where
  "spec_tuple2_entries =
     spec_tuple2\<lparr>m_traversal :=
       map (\<lambda>n. n\<lparr>node_entries := Some (PyTuple [PyInt 0, PyInt 1])\<rparr>) (m_traversal spec_tuple2)\<rparr>"

text \<open>
  Two specs with one \<open>Custom\<close> node each, registered at the same address, that differ
  only in the auxiliary data of that node.
\<close>

definition spec_custom :: "pyobj \<Rightarrow> PyTreeSpec" where
  "spec_custom aux =
     \<lparr>m_traversal =
        [default_Node\<lparr>kind := Custom, arity := 0, node_data := Some aux, custom := Some 0,
                      num_leaves := 0, num_nodes := 1\<rparr>],
      m_none_is_leaf = False, m_namespace = []\<rparr>"

text \<open>
  The spec of a user node \<open>MyNode\<close> with auxiliary data \<open>7\<close>, path entries \<open>(''a'',)\<close>
  and one child, a dictionary \<open>{''k'': *}\<close>; its registration is at address \<open>0\<close>.
\<close>

definition spec_custom_dict :: PyTreeSpec where
  "spec_custom_dict =
     \<lparr>m_traversal =
        [leaf_node,
         default_Node\<lparr>kind := Dict, arity := 1, node_data := Some (PyList [PyStr ''k'']),
                      num_leaves := 1, num_nodes := 2\<rparr>,
         default_Node\<lparr>kind := Custom, arity := 1, node_data := Some (PyInt 7),
                      node_entries := Some (PyTuple [PyStr ''a'']), custom := Some 0,
                      num_leaves := 1, num_nodes := 3\<rparr>],
      m_none_is_leaf = False, m_namespace = ''ns''\<rparr>"

text \<open>
  A pickled state that \<^verbatim>\<open>FromPicklable\<close> accepts: one \<open>Leaf\<close> node (ordinal 1, arity 0, no
  data, entries or type) that claims five leaves and seven nodes; and the spec it
  decodes to.
\<close>

definition pickled_bad_counts :: pyobj where
  "pickled_bad_counts =
     PyTuple [PyTuple [PyTuple [PyInt 1, PyInt 0, PyNone, PyNone, PyNone, PyInt 5, PyInt 7]],
              PyBool False, PyStr '''']"

definition spec_bad_counts :: PyTreeSpec where
  "spec_bad_counts =
     \<lparr>m_traversal = [default_Node\<lparr>kind := Leaf, arity := 0, num_leaves := 5, num_nodes := 7\<rparr>],
      m_none_is_leaf = False, m_namespace = []\<rparr>"

text \<open>
  What \<^verbatim>\<open>Compose\<close> returns for the spec of \<open>(*, *)\<close> as outer spec and the spec with the
  miscounted leaf as inner spec.
\<close>

definition spec_composed_bad :: PyTreeSpec where
  "spec_composed_bad =
     \<lparr>m_traversal =
        [default_Node\<lparr>kind := Leaf, arity := 0, num_leaves := 5, num_nodes := 7\<rparr>,
         default_Node\<lparr>kind := Leaf, arity := 0, num_leaves := 5, num_nodes := 7\<rparr>,
         default_Node\<lparr>kind := Tuple, arity := 2, num_leaves := 10, num_nodes := 3\<rparr>],
      m_none_is_leaf = False, m_namespace = []\<rparr>"

text \<open>
  A registry with two registrations for the type \<open>MyNode\<close>: the one at address \<open>1\<close> in
  the namespace \<open>ns1\<close>, the one at address \<open>0\<close> in the default namespace, which every
  other namespace falls back to (section 4.1 of the spec).
\<close>

definition two_registry :: "bool \<Rightarrow> pyobj \<Rightarrow> string \<Rightarrow> registration_ptr option" where
  "two_registry none_is_leaf ty ns =
     (if ty = PyType ''MyNode'' then (if ns = ''ns1'' then Some 1 else Some 0) else None)"

text \<open>
  A childless \<open>MyNode\<close> with auxiliary data \<open>7\<close>, registered at address \<open>p\<close>; its spec as
  flattened in the namespace \<open>ns1\<close> (the spec flattened in the default namespace is
  \<open>spec_custom (PyInt 7)\<close>); the tuple of the two; and what the pickled tuple decodes to.
\<close>

definition custom_node :: "registration_ptr \<Rightarrow> Node" where
  "custom_node p =
     default_Node\<lparr>kind := Custom, arity := 0, node_data := Some (PyInt 7), custom := Some p,
                  num_leaves := 0, num_nodes := 1\<rparr>"

definition spec_custom_ns1 :: PyTreeSpec where
  "spec_custom_ns1 =
     \<lparr>m_traversal = [custom_node 1], m_none_is_leaf = False, m_namespace = ''ns1''\<rparr>"

definition spec_mixed :: PyTreeSpec where
  "spec_mixed =
     \<lparr>m_traversal =
        [custom_node 1, custom_node 0,
         default_Node\<lparr>kind := Tuple, arity := 2, num_leaves := 0, num_nodes := 3\<rparr>],
      m_none_is_leaf = False, m_namespace = ''ns1''\<rparr>"

definition spec_mixed_decoded :: PyTreeSpec where
  "spec_mixed_decoded =
     \<lparr>m_traversal =
        [custom_node 1, custom_node 1,
         default_Node\<lparr>kind := Tuple, arity := 2, num_leaves := 0, num_nodes := 3\<rparr>],
      m_none_is_leaf = False, m_namespace = ''ns1''\<rparr>"

section \<open>Well-formed traversals\<close>

lemma count_leaves_Nil [simp]: "count_leaves [] = 0"
  by (simp add: count_leaves_def)

lemma count_leaves_append [simp]:
  "count_leaves (xs @ ys) = count_leaves xs + count_leaves ys"
  by (simp add: count_leaves_def)

lemma count_leaves_concat:
  "int (count_leaves (concat xss)) = sum_list (map (\<lambda>xs. int (count_leaves xs)) xss)"
  by (induction xss) simp_all

text \<open>
  The counts of a traversal that passes the replay are determined by the kinds and
  arities of its nodes.
\<close>

lemma replay_step_SomeD:
  assumes "replay_step n agenda = Some agenda'"
  shows "num_nodes n = 1 + sum_list (map snd (take (nat (arity n)) agenda))"
    and "num_leaves n =
           (if kind n = Leaf then 1 else sum_list (map fst (take (nat (arity n)) agenda)))"
    and "agenda' = (num_leaves n, num_nodes n) # drop (nat (arity n)) agenda"
    and "0 \<le> arity n" and "nat (arity n) \<le> length agenda"
    and "kind n = Leaf \<or> kind n = NoneKind \<Longrightarrow> arity n = 0"
  using assms by (auto simp: replay_step_def Let_def split: if_splits)

lemma replay_counts_determined:
  assumes "list_all2 (\<lambda>a b. kind a = kind b \<and> arity a = arity b) as bs"
    and "replay as agenda = Some sa" and "replay bs agenda = Some sb"
  shows "list_all2 (\<lambda>a b. num_leaves a = num_leaves b \<and> num_nodes a = num_nodes b) as bs"
  using assms
proof (induction as bs arbitrary: agenda rule: list_all2_induct)
  case Nil
  then show ?case by simp
next
  case (Cons a as b bs)
  from Cons.prems(1) obtain ag1 where a: "replay_step a agenda = Some ag1"
    and ra: "replay as ag1 = Some sa"
    by (auto split: option.splits)
  from Cons.prems(2) obtain ag2 where b: "replay_step b agenda = Some ag2"
    and rb: "replay bs ag2 = Some sb"
    by (auto split: option.splits)
  from Cons.hyps(1) have same: "kind a = kind b" "arity a = arity b"
    by simp_all
  have nodes: "num_nodes a = num_nodes b"
    using replay_step_SomeD(1)[OF a] replay_step_SomeD(1)[OF b] same by simp
  have leaves: "num_leaves a = num_leaves b"
    using replay_step_SomeD(2)[OF a] replay_step_SomeD(2)[OF b] same by simp
  have "ag1 = ag2"
    using replay_step_SomeD(3)[OF a] replay_step_SomeD(3)[OF b] same nodes leaves by simp
  with ra rb Cons.IH have "list_all2 (\<lambda>a b. num_leaves a = num_leaves b \<and> num_nodes a = num_nodes b) as bs"
    by blast
  with nodes leaves show ?case by simp
qed

lemma well_formed_structure_replay:
  assumes "well_formed_structure t"
  obtains c where "replay (m_traversal t) [] = Some [c]"
  using assms
  by (auto simp: well_formed_structure_def split: option.splits list.splits)

text \<open>
  The replay of a traversal cuts it into the subtrees that are on the stack: while the
  stack holds the counts of finished subtrees, the nodes read so far are the
  concatenation of the slices that close them (the deepest entry of the stack first).
\<close>

lemma closes_lengths:
  assumes "list_all2 closes segs agenda"
  shows "sum_list (map snd agenda) = int (length (concat segs))"
    and "sum_list (map fst agenda) = sum_list (map (\<lambda>seg. num_leaves (last seg)) segs)"
    and "sum_list (map fst agenda) = int (count_leaves (concat segs))"
  using assms
  by (induction segs agenda rule: list_all2_induct) (simp_all add: closes_def)

lemma length_concat_rev: "length (concat (rev xss)) = length (concat xss)"
  by (induction xss) simp_all

lemma count_leaves_concat_rev: "count_leaves (concat (rev xss)) = count_leaves (concat xss)"
  by (induction xss) simp_all

lemma replay_step_segments:
  assumes "replay_step n agenda = Some agenda'" and "list_all2 closes segs agenda"
  shows "\<exists>segs'. list_all2 closes segs' agenda'
           \<and> concat (rev segs') = concat (rev segs) @ [n]"
proof -
  let ?k = "nat (arity n)"
  let ?seg = "concat (rev (take ?k segs)) @ [n]"
  note step = replay_step_SomeD[OF assms(1)]
  have taken: "list_all2 closes (take ?k segs) (take ?k agenda)"
    and rest: "list_all2 closes (drop ?k segs) (drop ?k agenda)"
    using assms(2) by (simp_all add: list_all2_takeI list_all2_dropI)
  have nodes: "num_nodes n = 1 + int (length (concat (take ?k segs)))"
    using step(1) closes_lengths(1)[OF taken] by simp
  have leaves: "num_leaves n = int (count_leaves ?seg)"
  proof (cases "kind n = Leaf")
    case True
    with step(6) have "?k = 0"
      by simp
    with True step(2) show ?thesis
      by (simp add: count_leaves_def)
  next
    case False
    with step(2) closes_lengths(3)[OF taken] show ?thesis
      by (simp add: count_leaves_concat_rev) (simp add: count_leaves_def)
  qed
  from nodes leaves have "closes ?seg (num_leaves n, num_nodes n)"
    by (simp add: closes_def length_concat_rev)
  with rest have "list_all2 closes (?seg # drop ?k segs) agenda'"
    by (simp add: step(3))
  moreover have "concat (rev (?seg # drop ?k segs)) = concat (rev segs) @ [n]"
  proof -
    have "rev segs = rev (drop ?k segs) @ rev (take ?k segs)"
      by (metis append_take_drop_id rev_append)
    then show ?thesis by simp
  qed
  ultimately show ?thesis by blast
qed

lemma replay_segments:
  assumes "replay ns agenda = Some agenda'" and "list_all2 closes segs agenda"
  shows "\<exists>segs'. list_all2 closes segs' agenda'
           \<and> concat (rev segs') = concat (rev segs) @ ns"
  using assms
proof (induction ns arbitrary: agenda segs)
  case Nil
  then show ?case by auto
next
  case (Cons n ns)
  from Cons.prems(1) obtain ag1 where s1: "replay_step n agenda = Some ag1"
    and r1: "replay ns ag1 = Some agenda'"
    by (auto split: option.splits)
  from replay_step_segments[OF s1 Cons.prems(2)]
  obtain segs1 where c1: "list_all2 closes segs1 ag1"
    and e1: "concat (rev segs1) = concat (rev segs) @ [n]"
    by blast
  from Cons.IH[OF r1 c1] e1 show ?case
    by auto
qed

lemma replay_append:
  "replay (xs @ ys) agenda =
     (case replay xs agenda of None \<Rightarrow> None | Some agenda' \<Rightarrow> replay ys agenda')"
  by (induction xs arbitrary: agenda) (simp_all split: option.splits)

text \<open>
  The root of a well-formed spec closes the whole traversal: the nodes before it are
  the concatenation of as many closed slices as the root has children, and the counts
  of the root are those of the slices put together.
\<close>

lemma well_formed_structure_children:
  assumes "well_formed_structure s"
  obtains cs where "m_traversal s = concat cs @ [root s]"
    and "int (length cs) = arity (root s)"
    and "\<forall>c\<in>set cs. c \<noteq> [] \<and> num_nodes (last c) = int (length c)"
    and "num_nodes (root s) = 1 + int (length (concat cs))"
    and "kind (root s) \<noteq> Leaf \<longrightarrow>
           num_leaves (root s) = sum_list (map (\<lambda>c. num_leaves (last c)) cs)"
proof -
  from assms obtain c where run: "replay (m_traversal s) [] = Some [c]"
    by (rule well_formed_structure_replay)
  then have "m_traversal s \<noteq> []"
    by auto
  then have tr: "m_traversal s = butlast (m_traversal s) @ [root s]"
    by (simp add: root_def)
  from run obtain agenda where before: "replay (butlast (m_traversal s)) [] = Some agenda"
    and last_step: "replay_step (root s) agenda = Some [c]"
    by (subst (asm) tr) (auto simp: replay_append split: option.splits)
  from replay_segments[OF before, of "[]"]
  obtain segs where cl: "list_all2 closes segs agenda"
    and cat: "concat (rev segs) = butlast (m_traversal s)"
    by auto
  note step = replay_step_SomeD[OF last_step]
  from step(3,5) have all: "nat (arity (root s)) = length agenda"
    by simp
  have len: "length segs = length agenda"
    using cl by (rule list_all2_lengthD)
  show ?thesis
  proof (rule that[of "rev segs"])
    show "m_traversal s = concat (rev segs) @ [root s]"
      using tr cat by simp
    show "int (length (rev segs)) = arity (root s)"
      using all len step(4) by simp
    show "\<forall>c\<in>set (rev segs). c \<noteq> [] \<and> num_nodes (last c) = int (length c)"
      using cl by (auto simp: list_all2_conv_all_nth in_set_conv_nth closes_def)
    show "num_nodes (root s) = 1 + int (length (concat (rev segs)))"
      using step(1) all closes_lengths(1)[OF cl] by (simp add: length_concat_rev)
    show "kind (root s) \<noteq> Leaf \<longrightarrow>
            num_leaves (root s) = sum_list (map (\<lambda>c. num_leaves (last c)) (rev segs))"
      using step(2) all closes_lengths(2)[OF cl] by (simp add: rev_map [symmetric])
  qed
qed

text \<open>
  A traversal that passes the replay satisfies invariants 1, 3 and 4 of the data model.
\<close>

lemma well_formed_structure_count_invariants:
  assumes "well_formed_structure t"
  shows "count_invariants t"
proof -
  from assms obtain c where run: "replay (m_traversal t) [] = Some [c]"
    by (rule well_formed_structure_replay)
  from replay_segments[OF run, of "[]"]
  obtain segs where cl: "list_all2 closes segs [c]"
    and cat: "concat (rev segs) = m_traversal t"
    by auto
  from cl obtain seg where segs: "segs = [seg]" and seg: "closes seg c"
    by (auto simp: list_all2_Cons2)
  from cat segs have "seg = m_traversal t"
    by simp
  with seg show ?thesis
    by (auto simp: closes_def count_invariants_def)
qed

lemma replay_leaf_invariant:
  assumes "replay ns agenda = Some agenda'"
  shows "list_all
           (\<lambda>n. (kind n = Leaf \<longrightarrow> arity n = 0 \<and> num_leaves n = 1 \<and> num_nodes n = 1)
                \<and> (kind n = NoneKind \<longrightarrow> arity n = 0 \<and> num_leaves n = 0 \<and> num_nodes n = 1))
           ns"
  using assms
proof (induction ns arbitrary: agenda)
  case Nil
  then show ?case by simp
next
  case (Cons n ns)
  from Cons.prems obtain ag1 where s1: "replay_step n agenda = Some ag1"
    and r1: "replay ns ag1 = Some agenda'"
    by (auto split: option.splits)
  note step = replay_step_SomeD[OF s1]
  have "(kind n = Leaf \<longrightarrow> arity n = 0 \<and> num_leaves n = 1 \<and> num_nodes n = 1)
        \<and> (kind n = NoneKind \<longrightarrow> arity n = 0 \<and> num_leaves n = 0 \<and> num_nodes n = 1)"
    using step(1,2,6) by auto
  with Cons.IH[OF r1] show ?case
    by simp
qed

lemma well_formed_structure_leaf_invariant:
  assumes "well_formed_structure t"
  shows "leaf_invariant t"
proof -
  from assms obtain c where "replay (m_traversal t) [] = Some [c]"
    by (rule well_formed_structure_replay)
  then show ?thesis
    unfolding leaf_invariant_def by (rule replay_leaf_invariant)
qed

lemma well_formed_structure_examples:
  "well_formed_structure spec_leaf" "well_formed_structure spec_list2"
  "well_formed_structure spec_tuple2"
  "well_formed_structure (spec_tuple2\<lparr>m_namespace := ''ns''\<rparr>)"
  by (simp_all add: well_formed_structure_def spec_leaf_def spec_list2_def spec_tuple2_def
      replay_step_def leaf_node_def default_Node_def)


text \<open>
  \<^verbatim>\<open>FromPicklable\<close> checks neither the counts it reads nor that there is a node at all:
  two specs it returns.
\<close>

lemma FromPicklable_bad_counts:
  "FromPicklable empty_registry pickled_bad_counts = Inr spec_bad_counts"
  by (simp add: FromPicklable_def FromPicklableImpl_def decode_node_def decode_node_data_def
      decode_custom_def kind_of_ordinal_def is_ssize_t_def pickled_bad_counts_def
      spec_bad_counts_def default_Node_def)

lemma FromPicklable_no_nodes:
  "FromPicklable empty_registry (PyTuple [PyTuple [], PyBool False, PyStr ''''])
     = Inr default_PyTreeSpec"
  by (simp add: FromPicklable_def FromPicklableImpl_def default_PyTreeSpec_def)

section \<open>Composition: counts and failure\<close>

lemma compose_loop_concat:
  "compose_loop inner il inn ns =
     concat (map (\<lambda>n. if kind n = Leaf then inner
                       else [n\<lparr>num_leaves := num_leaves n * il,
                               num_nodes := (num_nodes n - num_leaves n)
                                              + num_leaves n * inn\<rparr>]) ns)"
  by (induction ns) simp_all

lemma compose_loop_append:
  "compose_loop inner il inn (xs @ ys) =
     compose_loop inner il inn xs @ compose_loop inner il inn ys"
  by (induction xs) simp_all

lemma compose_loop_last:
  assumes "ns \<noteq> []" and "inner \<noteq> []"
  shows "last (compose_loop inner il inn ns) =
           (if kind (last ns) = Leaf then last inner
            else (last ns)\<lparr>num_leaves := num_leaves (last ns) * il,
                   num_nodes := (num_nodes (last ns) - num_leaves (last ns))
                                  + num_leaves (last ns) * inn\<rparr>)"
proof -
  from assms(1) obtain xs x where ns: "ns = xs @ [x]"
    by (metis rev_exhaust)
  show ?thesis
    using assms(2) by (simp add: ns compose_loop_append)
qed

text \<open>A spec whose root is a \<open>Leaf\<close> is that single node.\<close>

lemma leaf_root_single:
  assumes "count_invariants t" and "leaf_invariant t" and "kind (last (m_traversal t)) = Leaf"
  shows "length (m_traversal t) = 1 \<and> num_leaves (last (m_traversal t)) = 1"
proof -
  from assms(1) have ne: "m_traversal t \<noteq> []"
    and nn: "num_nodes (last (m_traversal t)) = int (length (m_traversal t))"
    by (simp_all add: count_invariants_def)
  from ne have "last (m_traversal t) \<in> set (m_traversal t)"
    by simp
  with assms(2,3)
  have "num_leaves (last (m_traversal t)) = 1 \<and> num_nodes (last (m_traversal t)) = 1"
    by (auto simp: leaf_invariant_def list_all_iff)
  with nn show ?thesis by simp
qed

text \<open>
  On operands that satisfy the invariants, with equal flags and compatible namespaces,
  both assertions at the end of \<^verbatim>\<open>Compose\<close> pass and the result is known in full.
\<close>

lemma Compose_succeeds:
  assumes nil: "m_none_is_leaf outer = m_none_is_leaf inner"
    and ns: "m_namespace outer = [] \<or> m_namespace inner = []
               \<or> m_namespace outer = m_namespace inner"
    and co: "count_invariants outer" and lo: "leaf_invariant outer"
    and ci: "count_invariants inner"
  shows "Compose outer inner =
           Inr \<lparr>m_traversal = concat (map (compose_node inner) (m_traversal outer)),
                m_none_is_leaf = m_none_is_leaf outer,
                m_namespace = (if m_namespace inner = [] then m_namespace outer
                               else m_namespace inner)\<rparr>"
proof -
  from co have one: "m_traversal outer \<noteq> []"
    and onn: "num_nodes (last (m_traversal outer)) = int (length (m_traversal outer))"
    by (simp_all add: count_invariants_def)
  from ci have ine: "m_traversal inner \<noteq> []"
    and inn: "num_nodes (last (m_traversal inner)) = int (length (m_traversal inner))"
    by (simp_all add: count_invariants_def)
  have trav:
    "compose_loop (m_traversal inner) (num_leaves (last (m_traversal inner)))
       (int (length (m_traversal inner))) (m_traversal outer)
     = concat (map (compose_node inner) (m_traversal outer))"
    unfolding compose_loop_concat compose_node_def root_def inn ..
  show ?thesis
  proof (cases "kind (last (m_traversal outer)) = Leaf")
    case True
    from leaf_root_single[OF co lo True]
    have "length (m_traversal outer) = 1" and "num_leaves (last (m_traversal outer)) = 1"
      by simp_all
    then show ?thesis
      using nil ns one ine inn True trav
      by (auto simp: Compose_def PyTreeSpec_num_leaves_def PyTreeSpec_num_nodes_def Let_def
          compose_loop_last)
  next
    case False
    then show ?thesis
      using nil ns one ine inn onn trav
      by (auto simp: Compose_def PyTreeSpec_num_leaves_def PyTreeSpec_num_nodes_def Let_def
          compose_loop_last)
  qed
qed

lemma root_compose:
  assumes "m_traversal outer \<noteq> []" and "m_traversal inner \<noteq> []"
  shows "last (concat (map (compose_node inner) (m_traversal outer))) =
           (if kind (root outer) = Leaf then root inner
            else (root outer)\<lparr>num_leaves := num_leaves (root outer) * num_leaves (root inner),
                   num_nodes := (num_nodes (root outer) - num_leaves (root outer))
                                  + num_leaves (root outer) * num_nodes (root inner)\<rparr>)"
proof -
  from assms(1) obtain xs x where tr: "m_traversal outer = xs @ [x]"
    by (metis rev_exhaust)
  show ?thesis
    using assms(2) by (simp add: tr compose_node_def root_def)
qed

lemma length_compose:
  "int (length (concat (map (compose_node inner) ns))) =
     (int (length ns) - int (count_leaves ns))
       + int (count_leaves ns) * int (length (m_traversal inner))"
  by (induction ns) (simp_all add: compose_node_def count_leaves_def algebra_simps)

lemma count_leaves_compose:
  "count_leaves (concat (map (compose_node inner) ns)) =
     count_leaves ns * count_leaves (m_traversal inner)"
  by (induction ns) (simp_all add: compose_node_def count_leaves_def)

text \<open>
  Claim C1, as amended. Composing two well-formed specs (invariants 1 to 4 of the data
  model) with the same \<open>none_is_leaf\<close> and compatible namespaces returns a spec whose
  traversal is
  the outer traversal with every \<open>Leaf\<close> replaced by the inner traversal and every other
  node copied with \<open>num_leaves\<close> multiplied by the inner root's \<open>num_leaves\<close> and with
  \<open>num_nodes\<close> equal to its old nodes minus its old leaves plus its old leaves times the
  inner root's \<open>num_nodes\<close>. The root of the result has the product of the two leaf
  counts as \<open>num_leaves\<close>, and the outer nodes minus the outer leaves plus the outer
  leaves times the inner nodes as \<open>num_nodes\<close>; the same holds of the counts that the
  methods \<open>num_leaves()\<close> and \<open>num_nodes()\<close> report.
\<close>

theorem C1_compose_counts:
  assumes "m_none_is_leaf outer = m_none_is_leaf inner"
    and "m_namespace outer = [] \<or> m_namespace inner = []
           \<or> m_namespace outer = m_namespace inner"
    and "well_formed_structure outer" and "well_formed_structure inner"
  shows "\<exists>r. Compose outer inner = Inr r
           \<and> m_traversal r = concat (map (compose_node inner) (m_traversal outer))
           \<and> num_leaves (root r) = num_leaves (root outer) * num_leaves (root inner)
           \<and> num_nodes (root r) =
               (num_nodes (root outer) - num_leaves (root outer))
                 + num_leaves (root outer) * num_nodes (root inner)
           \<and> PyTreeSpec_num_leaves r = Inr (num_leaves (root outer) * num_leaves (root inner))
           \<and> PyTreeSpec_num_nodes r =
               (PyTreeSpec_num_nodes outer - num_leaves (root outer))
                 + num_leaves (root outer) * PyTreeSpec_num_nodes inner"
proof -
  let ?r = "\<lparr>m_traversal = concat (map (compose_node inner) (m_traversal outer)),
             m_none_is_leaf = m_none_is_leaf outer,
             m_namespace = (if m_namespace inner = [] then m_namespace outer
                            else m_namespace inner)\<rparr>"
  have co: "count_invariants outer" and lo: "leaf_invariant outer"
    using assms(3)
    by (simp_all add: well_formed_structure_count_invariants well_formed_structure_leaf_invariant)
  have ci: "count_invariants inner"
    using assms(4) by (rule well_formed_structure_count_invariants)
  have run: "Compose outer inner = Inr ?r"
    using assms(1,2) co lo ci by (rule Compose_succeeds)
  from co have one: "m_traversal outer \<noteq> []"
    and onn: "num_nodes (root outer) = int (length (m_traversal outer))"
    by (simp_all add: count_invariants_def root_def)
  from ci have ine: "m_traversal inner \<noteq> []"
    and inn: "num_nodes (root inner) = int (length (m_traversal inner))"
    by (simp_all add: count_invariants_def root_def)
  have rt: "root ?r =
      (if kind (root outer) = Leaf then root inner
       else (root outer)\<lparr>num_leaves := num_leaves (root outer) * num_leaves (root inner),
              num_nodes := (num_nodes (root outer) - num_leaves (root outer))
                             + num_leaves (root outer) * num_nodes (root inner)\<rparr>)"
    using root_compose[OF one ine] by (simp add: root_def)
  have single: "kind (root outer) = Leaf \<Longrightarrow>
      num_nodes (root outer) = 1 \<and> num_leaves (root outer) = 1"
    using leaf_root_single[OF co lo] onn by (simp add: root_def)
  have leaves: "num_leaves (root ?r) = num_leaves (root outer) * num_leaves (root inner)"
    using single by (simp add: rt)
  have nodes: "num_nodes (root ?r) =
      (num_nodes (root outer) - num_leaves (root outer))
        + num_leaves (root outer) * num_nodes (root inner)"
    using single by (simp add: rt)
  have nonempty: "m_traversal ?r \<noteq> []"
    using one ine by (cases "m_traversal outer") (auto simp: compose_node_def)
  have api_leaves:
    "PyTreeSpec_num_leaves ?r = Inr (num_leaves (root outer) * num_leaves (root inner))"
    using nonempty leaves by (simp add: PyTreeSpec_num_leaves_def root_def)
  from co have ol: "num_leaves (root outer) = int (count_leaves (m_traversal outer))"
    by (simp add: count_invariants_def root_def)
  have api_nodes: "PyTreeSpec_num_nodes ?r =
      (PyTreeSpec_num_nodes outer - num_leaves (root outer))
        + num_leaves (root outer) * PyTreeSpec_num_nodes inner"
    by (simp add: PyTreeSpec_num_nodes_def length_compose ol)
  from run leaves nodes api_leaves api_nodes show ?thesis
    by (intro exI[of _ ?r]) simp
qed

theorem C1_compose_counts_witness:
  "m_none_is_leaf spec_list2 = m_none_is_leaf spec_tuple2
   \<and> well_formed_structure spec_list2 \<and> well_formed_structure spec_tuple2
   \<and> (\<exists>r. Compose spec_list2 spec_tuple2 = Inr r
          \<and> num_leaves (root r) = 4 \<and> num_nodes (root r) = 7
          \<and> PyTreeSpec_num_leaves r = Inr 4 \<and> PyTreeSpec_num_nodes r = 7)"
proof -
  have h: "m_none_is_leaf spec_list2 = m_none_is_leaf spec_tuple2"
    "m_namespace spec_list2 = [] \<or> m_namespace spec_tuple2 = []
       \<or> m_namespace spec_list2 = m_namespace spec_tuple2"
    "well_formed_structure spec_list2" "well_formed_structure spec_tuple2"
    by (simp_all add: well_formed_structure_examples) (simp_all add: spec_list2_def spec_tuple2_def)
  have v: "num_leaves (root spec_list2) = 2" "num_leaves (root spec_tuple2) = 2"
    "num_nodes (root spec_list2) = 3" "num_nodes (root spec_tuple2) = 3"
    "PyTreeSpec_num_nodes spec_list2 = 3" "PyTreeSpec_num_nodes spec_tuple2 = 3"
    by (simp_all add: spec_list2_def spec_tuple2_def root_def default_Node_def
        PyTreeSpec_num_nodes_def)
  from C1_compose_counts[OF h] h show ?thesis
    by (auto simp: v)
qed

text \<open>
  The claim for every pair of specs fails on specs that \<^verbatim>\<open>FromPicklable\<close> returns. With a
  single \<open>Leaf\<close> that claims five leaves and seven nodes as outer spec, the flags being
  equal and both namespaces empty, \<^verbatim>\<open>Compose\<close> raises at its first assertion. With that
  spec as inner spec and the spec of \<open>(*, *)\<close> as outer spec, \<^verbatim>\<open>Compose\<close> returns, and the
  root has three nodes, the code multiplying by the length of the inner traversal, where
  the claim multiplies by the seven nodes of the inner root and gets fifteen.
\<close>

theorem C1_compose_counterexample:
  "FromPicklable empty_registry pickled_bad_counts = Inr spec_bad_counts
   \<and> m_none_is_leaf spec_bad_counts = m_none_is_leaf spec_leaf
   \<and> m_none_is_leaf spec_tuple2 = m_none_is_leaf spec_bad_counts
   \<and> m_namespace spec_bad_counts = [] \<and> m_namespace spec_leaf = []
   \<and> m_namespace spec_tuple2 = []
   \<and> Compose spec_bad_counts spec_leaf
       = Inl (InternalError ''Number of composed tree leaves mismatch.'')
   \<and> Compose spec_tuple2 spec_bad_counts = Inr spec_composed_bad
   \<and> num_nodes (root spec_composed_bad) = 3
   \<and> (num_nodes (root spec_tuple2) - num_leaves (root spec_tuple2))
        + num_leaves (root spec_tuple2) * num_nodes (root spec_bad_counts) = 15"
  by (simp add: FromPicklable_bad_counts Compose_def PyTreeSpec_num_leaves_def
      PyTreeSpec_num_nodes_def spec_bad_counts_def spec_leaf_def spec_tuple2_def
      spec_composed_bad_def leaf_node_def default_Node_def root_def)

text \<open>
  Whatever the operands are, the two checks at the head of \<^verbatim>\<open>Compose\<close> are the only
  source of \<^verbatim>\<open>std::invalid_argument\<close>.
\<close>

lemma Compose_invalid_argument:
  "(\<exists>msg. Compose outer inner = Inl (InvalidArgument msg)) \<longleftrightarrow>
     m_none_is_leaf outer \<noteq> m_none_is_leaf inner
     \<or> (m_namespace outer \<noteq> [] \<and> m_namespace inner \<noteq> []
        \<and> m_namespace outer \<noteq> m_namespace inner)"
  by (auto simp: Compose_def PyTreeSpec_num_leaves_def Let_def split: sum.splits)

text \<open>
  On well-formed operands \<^verbatim>\<open>Compose\<close> fails exactly when one of the two checks does.
\<close>

lemma Compose_fails_well_formed:
  assumes "well_formed_structure outer" and "well_formed_structure inner"
  shows "(\<exists>e. Compose outer inner = Inl e) \<longleftrightarrow>
           m_none_is_leaf outer \<noteq> m_none_is_leaf inner
           \<or> (m_namespace outer \<noteq> [] \<and> m_namespace inner \<noteq> []
              \<and> m_namespace outer \<noteq> m_namespace inner)"
proof (cases "m_none_is_leaf outer \<noteq> m_none_is_leaf inner
              \<or> (m_namespace outer \<noteq> [] \<and> m_namespace inner \<noteq> []
                 \<and> m_namespace outer \<noteq> m_namespace inner)")
  case True
  then obtain msg where "Compose outer inner = Inl (InvalidArgument msg)"
    using Compose_invalid_argument[of outer inner] by blast
  with True show ?thesis by auto
next
  case False
  then have nil: "m_none_is_leaf outer = m_none_is_leaf inner"
    and ns: "m_namespace outer = [] \<or> m_namespace inner = []
               \<or> m_namespace outer = m_namespace inner"
    by auto
  have co: "count_invariants outer" and lo: "leaf_invariant outer"
    using assms(1)
    by (simp_all add: well_formed_structure_count_invariants well_formed_structure_leaf_invariant)
  have ci: "count_invariants inner"
    using assms(2) by (rule well_formed_structure_count_invariants)
  from Compose_succeeds[OF nil ns co lo ci] False show ?thesis
    by simp
qed

text \<open>Whenever \<^verbatim>\<open>Compose\<close> returns, the result has the flag and namespace set at its head.\<close>

lemma Compose_result_fields:
  assumes "Compose outer inner = Inr r"
  shows "m_none_is_leaf r = m_none_is_leaf outer \<and> m_none_is_leaf r = m_none_is_leaf inner
         \<and> m_namespace r = (if m_namespace inner = [] then m_namespace outer
                             else m_namespace inner)
         \<and> (m_namespace outer = [] \<or> m_namespace inner = []
              \<or> m_namespace outer = m_namespace inner)"
  using assms
  by (auto simp: Compose_def Let_def split: if_splits sum.splits)

text \<open>
  Claim C8, as amended. For every pair of specs, \<^verbatim>\<open>Compose\<close> fails with an
  invalid-argument error exactly when the flags differ or both namespaces are non-empty
  and different; for well-formed operands it fails in no other way, so that it fails
  exactly in these two cases. (On operands that break the invariants it can also fail
  with an internal error.) Whenever it succeeds the result carries the shared flag and
  the non-empty namespace of the two (the empty one when both are empty). A failure is
  a value \<open>Inl\<close>, which holds no spec; the operands are values and are not changed.
\<close>

theorem C8_compose_failure:
  "((\<exists>msg. Compose outer inner = Inl (InvalidArgument msg)) \<longleftrightarrow>
       m_none_is_leaf outer \<noteq> m_none_is_leaf inner
       \<or> (m_namespace outer \<noteq> [] \<and> m_namespace inner \<noteq> []
          \<and> m_namespace outer \<noteq> m_namespace inner))
   \<and> (well_formed_structure outer \<and> well_formed_structure inner \<longrightarrow>
        ((\<exists>e. Compose outer inner = Inl e) \<longleftrightarrow>
           m_none_is_leaf outer \<noteq> m_none_is_leaf inner
           \<or> (m_namespace outer \<noteq> [] \<and> m_namespace inner \<noteq> []
              \<and> m_namespace outer \<noteq> m_namespace inner))
        \<and> (\<forall>e. Compose outer inner = Inl e \<longrightarrow> (\<exists>msg. e = InvalidArgument msg)))
   \<and> (\<forall>r. Compose outer inner = Inr r \<longrightarrow>
         m_none_is_leaf r = m_none_is_leaf outer
         \<and> m_none_is_leaf r = m_none_is_leaf inner
         \<and> (m_namespace outer \<noteq> [] \<longrightarrow> m_namespace r = m_namespace outer)
         \<and> (m_namespace inner \<noteq> [] \<longrightarrow> m_namespace r = m_namespace inner)
         \<and> (m_namespace outer = [] \<and> m_namespace inner = [] \<longrightarrow> m_namespace r = []))"
proof -
  have invalid: "(\<exists>msg. Compose outer inner = Inl (InvalidArgument msg)) \<longleftrightarrow>
          m_none_is_leaf outer \<noteq> m_none_is_leaf inner
          \<or> (m_namespace outer \<noteq> [] \<and> m_namespace inner \<noteq> []
             \<and> m_namespace outer \<noteq> m_namespace inner)"
    by (rule Compose_invalid_argument)
  have fails: "(\<exists>e. Compose outer inner = Inl e) \<longleftrightarrow>
          m_none_is_leaf outer \<noteq> m_none_is_leaf inner
          \<or> (m_namespace outer \<noteq> [] \<and> m_namespace inner \<noteq> []
             \<and> m_namespace outer \<noteq> m_namespace inner)"
    if "well_formed_structure outer \<and> well_formed_structure inner"
    using that by (intro Compose_fails_well_formed) simp_all
  have only: "\<forall>e. Compose outer inner = Inl e \<longrightarrow> (\<exists>msg. e = InvalidArgument msg)"
    if wf: "well_formed_structure outer \<and> well_formed_structure inner"
  proof (intro allI impI)
    fix e
    assume e: "Compose outer inner = Inl e"
    with fails[OF wf] have "m_none_is_leaf outer \<noteq> m_none_is_leaf inner
          \<or> (m_namespace outer \<noteq> [] \<and> m_namespace inner \<noteq> []
             \<and> m_namespace outer \<noteq> m_namespace inner)"
      by blast
    with invalid obtain msg where "Compose outer inner = Inl (InvalidArgument msg)"
      by blast
    with e show "\<exists>msg. e = InvalidArgument msg"
      by auto
  qed
  have fields: "\<forall>r. Compose outer inner = Inr r \<longrightarrow>
         m_none_is_leaf r = m_none_is_leaf outer
         \<and> m_none_is_leaf r = m_none_is_leaf inner
         \<and> (m_namespace outer \<noteq> [] \<longrightarrow> m_namespace r = m_namespace outer)
         \<and> (m_namespace inner \<noteq> [] \<longrightarrow> m_namespace r = m_namespace inner)
         \<and> (m_namespace outer = [] \<and> m_namespace inner = [] \<longrightarrow> m_namespace r = [])"
  proof (intro allI impI)
    fix r
    assume r: "Compose outer inner = Inr r"
    from Compose_result_fields[OF r]
    show "m_none_is_leaf r = m_none_is_leaf outer
         \<and> m_none_is_leaf r = m_none_is_leaf inner
         \<and> (m_namespace outer \<noteq> [] \<longrightarrow> m_namespace r = m_namespace outer)
         \<and> (m_namespace inner \<noteq> [] \<longrightarrow> m_namespace r = m_namespace inner)
         \<and> (m_namespace outer = [] \<and> m_namespace inner = [] \<longrightarrow> m_namespace r = [])"
      by (auto split: if_splits)
  qed
  from invalid fails only fields show ?thesis
    by blast
qed

theorem C8_compose_failure_witness:
  "well_formed_structure spec_list2
   \<and> well_formed_structure (spec_tuple2\<lparr>m_none_is_leaf := True\<rparr>)
   \<and> well_formed_structure (spec_tuple2\<lparr>m_namespace := ''ns''\<rparr>)
   \<and> (\<exists>msg. Compose spec_list2 (spec_tuple2\<lparr>m_none_is_leaf := True\<rparr>)
               = Inl (InvalidArgument msg))
   \<and> (\<exists>r. Compose spec_list2 (spec_tuple2\<lparr>m_namespace := ''ns''\<rparr>) = Inr r
          \<and> \<not> m_none_is_leaf r \<and> m_namespace r = ''ns'')"
proof -
  have h: "well_formed_structure spec_list2"
    "well_formed_structure (spec_tuple2\<lparr>m_none_is_leaf := True\<rparr>)"
    "well_formed_structure (spec_tuple2\<lparr>m_namespace := ''ns''\<rparr>)"
    by (simp_all add: well_formed_structure_def spec_list2_def spec_tuple2_def
        replay_step_def leaf_node_def default_Node_def)
  have f: "\<not> m_none_is_leaf spec_list2" "m_namespace spec_list2 = []"
    by (simp_all add: spec_list2_def)
  have a: "\<exists>msg. Compose spec_list2 (spec_tuple2\<lparr>m_none_is_leaf := True\<rparr>)
                    = Inl (InvalidArgument msg)"
    using C8_compose_failure[of spec_list2 "spec_tuple2\<lparr>m_none_is_leaf := True\<rparr>"] f
    by simp
  have "\<not> (\<exists>e. Compose spec_list2 (spec_tuple2\<lparr>m_namespace := ''ns''\<rparr>) = Inl e)"
    using C8_compose_failure[of spec_list2 "spec_tuple2\<lparr>m_namespace := ''ns''\<rparr>"] h f
    by (simp add: spec_tuple2_def)
  then obtain r where r: "Compose spec_list2 (spec_tuple2\<lparr>m_namespace := ''ns''\<rparr>) = Inr r"
    by (cases "Compose spec_list2 (spec_tuple2\<lparr>m_namespace := ''ns''\<rparr>)") auto
  then have "\<not> m_none_is_leaf r \<and> m_namespace r = ''ns''"
    using C8_compose_failure[of spec_list2 "spec_tuple2\<lparr>m_namespace := ''ns''\<rparr>"] f
    by simp
  with r have b: "\<exists>r. Compose spec_list2 (spec_tuple2\<lparr>m_namespace := ''ns''\<rparr>) = Inr r
                   \<and> \<not> m_none_is_leaf r \<and> m_namespace r = ''ns''"
    by blast
  from h a b show ?thesis by simp
qed

text \<open>
  The claim for every pair of specs fails on specs that \<^verbatim>\<open>FromPicklable\<close> returns: with
  equal flags and empty namespaces \<^verbatim>\<open>Compose\<close> fails all the same, with an internal
  error, on the miscounted leaf and on the spec without nodes.
\<close>

theorem C8_compose_failure_counterexample:
  "FromPicklable empty_registry pickled_bad_counts = Inr spec_bad_counts
   \<and> FromPicklable empty_registry (PyTuple [PyTuple [], PyBool False, PyStr ''''])
       = Inr default_PyTreeSpec
   \<and> m_none_is_leaf spec_bad_counts = m_none_is_leaf spec_leaf
   \<and> m_none_is_leaf default_PyTreeSpec = m_none_is_leaf spec_leaf
   \<and> m_namespace spec_bad_counts = [] \<and> m_namespace default_PyTreeSpec = []
   \<and> m_namespace spec_leaf = []
   \<and> Compose spec_bad_counts spec_leaf
       = Inl (InternalError ''Number of composed tree leaves mismatch.'')
   \<and> Compose default_PyTreeSpec spec_leaf
       = Inl (InternalError ''The tree node traversal is empty.'')"
  by (simp add: FromPicklable_bad_counts FromPicklable_no_nodes Compose_def
      PyTreeSpec_num_leaves_def PyTreeSpec_num_nodes_def spec_bad_counts_def spec_leaf_def
      default_PyTreeSpec_def leaf_node_def default_Node_def)

section \<open>The tuple constructor\<close>

text \<open>
  The namespace the first loop of \<^verbatim>\<open>Tuple\<close> ends with: the one it started with if that
  is not empty, else the first non-empty namespace among the specs, else the empty one.
\<close>

lemma tuple_check_ok:
  assumes "\<forall>t\<in>set ts. m_none_is_leaf t = nil"
    and "\<forall>a\<in>set ts. \<forall>b\<in>set ts.
           m_namespace a \<noteq> [] \<and> m_namespace b \<noteq> [] \<longrightarrow> m_namespace a = m_namespace b"
    and "\<forall>a\<in>set ts. m_namespace a \<noteq> [] \<and> acc \<noteq> [] \<longrightarrow> m_namespace a = acc"
  shows "\<exists>ns. tuple_check nil acc ts = Inr ns
           \<and> (acc \<noteq> [] \<longrightarrow> ns = acc)
           \<and> (\<forall>t\<in>set ts. m_namespace t \<noteq> [] \<longrightarrow> ns = m_namespace t)
           \<and> (acc = [] \<and> (\<forall>t\<in>set ts. m_namespace t = []) \<longrightarrow> ns = [])"
  using assms
proof (induction ts arbitrary: acc)
  case Nil
  then show ?case by simp
next
  case (Cons t ts)
  show ?case
  proof (cases "m_namespace t \<noteq> [] \<and> acc = []")
    case True
    have "\<exists>ns. tuple_check nil (m_namespace t) ts = Inr ns
           \<and> (m_namespace t \<noteq> [] \<longrightarrow> ns = m_namespace t)
           \<and> (\<forall>u\<in>set ts. m_namespace u \<noteq> [] \<longrightarrow> ns = m_namespace u)
           \<and> (m_namespace t = [] \<and> (\<forall>u\<in>set ts. m_namespace u = []) \<longrightarrow> ns = [])"
      using Cons.prems by (intro Cons.IH) auto
    then show ?thesis
      using True Cons.prems(1) by auto
  next
    case False
    have "\<exists>ns. tuple_check nil acc ts = Inr ns
           \<and> (acc \<noteq> [] \<longrightarrow> ns = acc)
           \<and> (\<forall>u\<in>set ts. m_namespace u \<noteq> [] \<longrightarrow> ns = m_namespace u)
           \<and> (acc = [] \<and> (\<forall>u\<in>set ts. m_namespace u = []) \<longrightarrow> ns = [])"
      using Cons.prems by (intro Cons.IH) auto
    then show ?thesis
      using False Cons.prems(1,3) by auto
  qed
qed

lemma tuple_collect_ok:
  assumes "\<forall>t\<in>set ts. m_traversal t \<noteq> []"
  shows "tuple_collect ts out_traversal leaves =
           Inr (out_traversal @ concat (map m_traversal ts),
                leaves + sum_list (map (\<lambda>t. num_leaves (root t)) ts))"
  using assms
  by (induction ts arbitrary: out_traversal leaves)
     (simp_all add: PyTreeSpec_num_leaves_def root_def)

text \<open>
  Claim C7, as amended. For well-formed specs that all carry the given flag and whose
  non-empty namespaces agree, \<^verbatim>\<open>Tuple\<close> returns a spec whose traversal is the
  concatenation of the children's traversals followed by one new root of kind \<open>Tuple\<close>,
  with the number of children as arity, the sum of the children's root \<open>num_leaves\<close> as
  \<open>num_leaves\<close>, and one plus the sum of the lengths of the children's traversals as
  \<open>num_nodes\<close>. The new root has no auxiliary data, no path entries and no registration;
  the result carries the flag and the common non-empty namespace of the children.
\<close>

theorem C7_tuple_constructor:
  assumes "\<forall>t\<in>set treespecs. m_none_is_leaf t = none_is_leaf"
    and "\<forall>a\<in>set treespecs. \<forall>b\<in>set treespecs.
           m_namespace a \<noteq> [] \<and> m_namespace b \<noteq> [] \<longrightarrow> m_namespace a = m_namespace b"
    and "\<forall>t\<in>set treespecs. well_formed_structure t"
  shows "\<exists>r. PyTreeSpec_Tuple treespecs none_is_leaf = Inr r
           \<and> m_traversal r = concat (map m_traversal treespecs) @ [root r]
           \<and> kind (root r) = Tuple
           \<and> arity (root r) = int (length treespecs)
           \<and> num_leaves (root r) = sum_list (map (\<lambda>t. num_leaves (root t)) treespecs)
           \<and> num_nodes (root r) = 1 + sum_list (map (\<lambda>t. int (length (m_traversal t))) treespecs)
           \<and> node_data (root r) = None \<and> node_entries (root r) = None
           \<and> custom (root r) = None
           \<and> m_none_is_leaf r = none_is_leaf
           \<and> (\<forall>t\<in>set treespecs. m_namespace t \<noteq> [] \<longrightarrow> m_namespace r = m_namespace t)
           \<and> ((\<forall>t\<in>set treespecs. m_namespace t = []) \<longrightarrow> m_namespace r = [])"
proof -
  from tuple_check_ok[OF assms(1,2), of "[]"]
  obtain ns where chk: "tuple_check none_is_leaf [] treespecs = Inr ns"
    and ns1: "\<forall>t\<in>set treespecs. m_namespace t \<noteq> [] \<longrightarrow> ns = m_namespace t"
    and ns2: "(\<forall>t\<in>set treespecs. m_namespace t = []) \<longrightarrow> ns = []"
    by auto
  have len: "int (length (concat (map m_traversal treespecs))) =
               sum_list (map (\<lambda>t. int (length (m_traversal t))) treespecs)"
    by (induction treespecs) simp_all
  have ne: "\<forall>t\<in>set treespecs. m_traversal t \<noteq> []"
    using assms(3) well_formed_structure_count_invariants
    by (auto simp: count_invariants_def)
  show ?thesis
    using chk ns1 ns2 len
    by (simp add: PyTreeSpec_Tuple_def tuple_collect_ok[OF ne] root_def default_Node_def)
qed

theorem C7_tuple_constructor_witness:
  "\<not> m_none_is_leaf spec_leaf \<and> \<not> m_none_is_leaf spec_tuple2
   \<and> m_namespace spec_leaf = [] \<and> m_namespace spec_tuple2 = []
   \<and> well_formed_structure spec_leaf \<and> well_formed_structure spec_tuple2
   \<and> (\<exists>r. PyTreeSpec_Tuple [spec_leaf, spec_tuple2] False = Inr r
          \<and> m_traversal r = m_traversal spec_leaf @ m_traversal spec_tuple2 @ [root r]
          \<and> kind (root r) = Tuple \<and> arity (root r) = 2
          \<and> num_leaves (root r) = 3 \<and> num_nodes (root r) = 5)"
proof -
  have f: "\<not> m_none_is_leaf spec_leaf" "\<not> m_none_is_leaf spec_tuple2"
    "m_namespace spec_leaf = []" "m_namespace spec_tuple2 = []"
    by (simp_all add: spec_leaf_def spec_tuple2_def)
  note wf = well_formed_structure_examples(1,3)
  have h: "\<forall>t\<in>set [spec_leaf, spec_tuple2]. m_none_is_leaf t = False"
    "\<forall>a\<in>set [spec_leaf, spec_tuple2]. \<forall>b\<in>set [spec_leaf, spec_tuple2].
       m_namespace a \<noteq> [] \<and> m_namespace b \<noteq> [] \<longrightarrow> m_namespace a = m_namespace b"
    "\<forall>t\<in>set [spec_leaf, spec_tuple2]. well_formed_structure t"
    using f wf by simp_all
  have v: "num_leaves (root spec_leaf) = 1" "num_leaves (root spec_tuple2) = 2"
    "length (m_traversal spec_leaf) = 1" "length (m_traversal spec_tuple2) = 3"
    by (simp_all add: spec_leaf_def spec_tuple2_def root_def leaf_node_def default_Node_def)
  from C7_tuple_constructor[OF h] f wf show ?thesis
    by (auto simp: v)
qed

text \<open>
  The claim for every list of specs fails on a spec that \<^verbatim>\<open>FromPicklable\<close> returns: the
  spec without nodes carries the flag and the empty namespace, and \<^verbatim>\<open>Tuple\<close> applied to
  it raises when it asks the child for its number of leaves.
\<close>

theorem C7_tuple_constructor_counterexample:
  "FromPicklable empty_registry (PyTuple [PyTuple [], PyBool False, PyStr ''''])
     = Inr default_PyTreeSpec
   \<and> m_none_is_leaf default_PyTreeSpec = False
   \<and> m_namespace default_PyTreeSpec = []
   \<and> PyTreeSpec_Tuple [default_PyTreeSpec] False
       = Inl (InternalError ''The tree node traversal is empty.'')"
  by (simp add: FromPicklable_no_nodes PyTreeSpec_Tuple_def PyTreeSpec_num_leaves_def
      default_PyTreeSpec_def)

section \<open>Equality\<close>

text \<open>
  What the loop of \<^verbatim>\<open>operator==\<close> decides on two traversals of the same length: it
  returns true exactly when every pair of nodes agrees and has the same counts (with
  agreeing nodes and different counts it raises).
\<close>

lemma nodes_equal_True_iff:
  assumes "length as = length bs"
  shows "nodes_equal ne as bs = Inr True \<longleftrightarrow>
           list_all2 (\<lambda>a b. nodes_agree ne a b
                             \<and> num_leaves a = num_leaves b \<and> num_nodes a = num_nodes b) as bs"
  using assms
proof (induction as bs rule: list_induct2)
  case Nil
  then show ?case by simp
next
  case (Cons a as b bs)
  show ?case
  proof (cases "node_data a")
    case None
    then show ?thesis
      using Cons.IH by (cases "node_data b") (auto simp: nodes_agree_def)
  next
    case (Some x)
    show ?thesis
    proof (cases "node_data b")
      case None
      with Some show ?thesis by (auto simp: nodes_agree_def)
    next
      case (Some y)
      show ?thesis
      proof (cases "ne x y")
        case (Inl e)
        with \<open>node_data a = Some x\<close> Some show ?thesis
          by (auto simp: nodes_agree_def)
      next
        case (Inr d)
        with \<open>node_data a = Some x\<close> Some Cons.IH show ?thesis
          by (cases d) (auto simp: nodes_agree_def)
      qed
    qed
  qed
qed

lemma operator_eq_True_iff:
  "operator_eq ne a b = Inr True \<longleftrightarrow>
     length (m_traversal a) = length (m_traversal b)
     \<and> m_none_is_leaf a = m_none_is_leaf b
     \<and> (m_namespace a = m_namespace b \<or> m_namespace a = [] \<or> m_namespace b = [])
     \<and> list_all2 (\<lambda>x y. nodes_agree ne x y
                         \<and> num_leaves x = num_leaves y \<and> num_nodes x = num_nodes y)
         (m_traversal a) (m_traversal b)"
proof (cases "length (m_traversal a) = length (m_traversal b)")
  case True
  then show ?thesis
    using nodes_equal_True_iff[OF True, of ne]
    by (auto simp: operator_eq_def)
next
  case False
  then show ?thesis
    by (auto simp: operator_eq_def dest: list_all2_lengthD)
qed

text \<open>
  When every pair of nodes agrees, the loop returns true if all counts agree too and
  raises at the first pair whose counts differ.
\<close>

lemma nodes_equal_agree:
  assumes "list_all2 (nodes_agree ne) as bs"
  shows "nodes_equal ne as bs =
           (if list_all2 (\<lambda>a b. num_leaves a = num_leaves b \<and> num_nodes a = num_nodes b) as bs
            then Inr True else Inl (InternalError ''EXPECT_EQ''))"
  using assms
proof (induction as bs rule: list_all2_induct)
  case Nil
  then show ?case by simp
next
  case (Cons a as b bs)
  from Cons.hyps(1) have same: "kind a = kind b" "arity a = arity b" "custom a = custom b"
    by (simp_all add: nodes_agree_def)
  show ?case
  proof (cases "node_data a")
    case None
    with Cons.hyps(1) have "node_data b = None"
      by (cases "node_data b") (simp_all add: nodes_agree_def)
    with None same Cons.IH show ?thesis
      by simp
  next
    case (Some x)
    with Cons.hyps(1) obtain y where y: "node_data b = Some y" and "ne x y = Inr False"
      by (cases "node_data b") (simp_all add: nodes_agree_def)
    with Some same Cons.IH show ?thesis
      by simp
  qed
qed

text \<open>
  For well-formed specs the counts need not be mentioned: they agree as soon as kinds
  and arities do.
\<close>

lemma operator_eq_well_formed:
  assumes "well_formed_structure a" and "well_formed_structure b"
  shows "operator_eq ne a b = Inr True \<longleftrightarrow>
           length (m_traversal a) = length (m_traversal b)
           \<and> m_none_is_leaf a = m_none_is_leaf b
           \<and> (m_namespace a = m_namespace b \<or> m_namespace a = [] \<or> m_namespace b = [])
           \<and> (\<forall>i<length (m_traversal a).
                 nodes_agree ne (m_traversal a ! i) (m_traversal b ! i))"
proof -
  from assms(1) obtain ca where ra: "replay (m_traversal a) [] = Some [ca]"
    by (rule well_formed_structure_replay)
  from assms(2) obtain cb where rb: "replay (m_traversal b) [] = Some [cb]"
    by (rule well_formed_structure_replay)
  have counts: "list_all2 (\<lambda>x y. num_leaves x = num_leaves y \<and> num_nodes x = num_nodes y)
                  (m_traversal a) (m_traversal b)"
    if "list_all2 (nodes_agree ne) (m_traversal a) (m_traversal b)"
  proof -
    from that have "list_all2 (\<lambda>x y. kind x = kind y \<and> arity x = arity y)
                      (m_traversal a) (m_traversal b)"
      by (rule list_all2_mono) (simp add: nodes_agree_def)
    from replay_counts_determined[OF this ra rb] show ?thesis .
  qed
  have "list_all2 (\<lambda>x y. nodes_agree ne x y
                         \<and> num_leaves x = num_leaves y \<and> num_nodes x = num_nodes y)
          (m_traversal a) (m_traversal b)
        \<longleftrightarrow> list_all2 (nodes_agree ne) (m_traversal a) (m_traversal b)"
    using counts by (auto simp: list_all2_conv_all_nth)
  then show ?thesis
    unfolding operator_eq_True_iff by (auto simp: list_all2_conv_all_nth)
qed

text \<open>
  Claim C5, as amended. For every pair of specs, \<^verbatim>\<open>operator==\<close> returns true exactly when
  the traversals have the same length, the flags are equal, the namespaces are equal or
  one of them is empty, and at every position the two nodes agree on kind, arity,
  registration and auxiliary data (both absent, or both present and not reported
  different by the host) and also on \<open>num_leaves\<close> and \<open>num_nodes\<close>. When all of this holds
  but for the counts, \<^verbatim>\<open>operator==\<close> raises an internal error. For well-formed specs the
  counts follow from the rest, and the equivalence holds without them.
\<close>

theorem C5_equality_characterised:
  "(operator_eq ne a b = Inr True \<longleftrightarrow>
      length (m_traversal a) = length (m_traversal b)
      \<and> m_none_is_leaf a = m_none_is_leaf b
      \<and> (m_namespace a = m_namespace b \<or> m_namespace a = [] \<or> m_namespace b = [])
      \<and> (\<forall>i<length (m_traversal a).
            nodes_agree ne (m_traversal a ! i) (m_traversal b ! i)
            \<and> num_leaves (m_traversal a ! i) = num_leaves (m_traversal b ! i)
            \<and> num_nodes (m_traversal a ! i) = num_nodes (m_traversal b ! i)))
   \<and> (length (m_traversal a) = length (m_traversal b)
        \<and> m_none_is_leaf a = m_none_is_leaf b
        \<and> (m_namespace a = m_namespace b \<or> m_namespace a = [] \<or> m_namespace b = [])
        \<and> (\<forall>i<length (m_traversal a).
              nodes_agree ne (m_traversal a ! i) (m_traversal b ! i))
        \<and> \<not> (\<forall>i<length (m_traversal a).
                num_leaves (m_traversal a ! i) = num_leaves (m_traversal b ! i)
                \<and> num_nodes (m_traversal a ! i) = num_nodes (m_traversal b ! i))
      \<longrightarrow> operator_eq ne a b = Inl (InternalError ''EXPECT_EQ''))
   \<and> (well_formed_structure a \<and> well_formed_structure b \<longrightarrow>
        (operator_eq ne a b = Inr True \<longleftrightarrow>
           length (m_traversal a) = length (m_traversal b)
           \<and> m_none_is_leaf a = m_none_is_leaf b
           \<and> (m_namespace a = m_namespace b \<or> m_namespace a = [] \<or> m_namespace b = [])
           \<and> (\<forall>i<length (m_traversal a).
                 nodes_agree ne (m_traversal a ! i) (m_traversal b ! i))))"
proof (intro conjI impI)
  show "operator_eq ne a b = Inr True \<longleftrightarrow>
      length (m_traversal a) = length (m_traversal b)
      \<and> m_none_is_leaf a = m_none_is_leaf b
      \<and> (m_namespace a = m_namespace b \<or> m_namespace a = [] \<or> m_namespace b = [])
      \<and> (\<forall>i<length (m_traversal a).
            nodes_agree ne (m_traversal a ! i) (m_traversal b ! i)
            \<and> num_leaves (m_traversal a ! i) = num_leaves (m_traversal b ! i)
            \<and> num_nodes (m_traversal a ! i) = num_nodes (m_traversal b ! i))"
    unfolding operator_eq_True_iff by (auto simp: list_all2_conv_all_nth)
next
  assume h: "length (m_traversal a) = length (m_traversal b)
        \<and> m_none_is_leaf a = m_none_is_leaf b
        \<and> (m_namespace a = m_namespace b \<or> m_namespace a = [] \<or> m_namespace b = [])
        \<and> (\<forall>i<length (m_traversal a).
              nodes_agree ne (m_traversal a ! i) (m_traversal b ! i))
        \<and> \<not> (\<forall>i<length (m_traversal a).
                num_leaves (m_traversal a ! i) = num_leaves (m_traversal b ! i)
                \<and> num_nodes (m_traversal a ! i) = num_nodes (m_traversal b ! i))"
  then have agree: "list_all2 (nodes_agree ne) (m_traversal a) (m_traversal b)"
    by (simp add: list_all2_conv_all_nth)
  from h have differ: "\<not> list_all2 (\<lambda>x y. num_leaves x = num_leaves y \<and> num_nodes x = num_nodes y)
                          (m_traversal a) (m_traversal b)"
    by (auto simp: list_all2_conv_all_nth)
  from h have "operator_eq ne a b = nodes_equal ne (m_traversal a) (m_traversal b)"
    by (auto simp: operator_eq_def)
  with nodes_equal_agree[OF agree] differ
  show "operator_eq ne a b = Inl (InternalError ''EXPECT_EQ'')"
    by simp
next
  assume "well_formed_structure a \<and> well_formed_structure b"
  then show "operator_eq ne a b = Inr True \<longleftrightarrow>
           length (m_traversal a) = length (m_traversal b)
           \<and> m_none_is_leaf a = m_none_is_leaf b
           \<and> (m_namespace a = m_namespace b \<or> m_namespace a = [] \<or> m_namespace b = [])
           \<and> (\<forall>i<length (m_traversal a).
                 nodes_agree ne (m_traversal a ! i) (m_traversal b ! i))"
    by (intro operator_eq_well_formed) simp_all
qed

theorem C5_equality_characterised_witness:
  "well_formed_structure spec_tuple2
   \<and> well_formed_structure (spec_tuple2\<lparr>m_namespace := ''ns''\<rparr>)
   \<and> well_formed_structure spec_list2
   \<and> operator_eq structural_ne spec_tuple2 (spec_tuple2\<lparr>m_namespace := ''ns''\<rparr>) = Inr True
   \<and> operator_eq structural_ne spec_tuple2 spec_list2 \<noteq> Inr True
   \<and> operator_eq structural_ne spec_leaf spec_bad_counts = Inl (InternalError ''EXPECT_EQ'')"
proof -
  note wf = well_formed_structure_examples
  have agree: "\<forall>i<length (m_traversal spec_tuple2).
      nodes_agree structural_ne (m_traversal spec_tuple2 ! i)
        (m_traversal (spec_tuple2\<lparr>m_namespace := ''ns''\<rparr>) ! i)"
    by (auto simp: spec_tuple2_def nodes_agree_def leaf_node_def default_Node_def
        less_Suc_eq nth_Cons split: nat.splits)
  have eq: "operator_eq structural_ne spec_tuple2 (spec_tuple2\<lparr>m_namespace := ''ns''\<rparr>)
              = Inr True"
    using C5_equality_characterised[of structural_ne spec_tuple2
        "spec_tuple2\<lparr>m_namespace := ''ns''\<rparr>"] wf(3,4) agree
    by (simp add: spec_tuple2_def)
  have "\<not> nodes_agree structural_ne (m_traversal spec_tuple2 ! 2) (m_traversal spec_list2 ! 2)"
    by (simp add: spec_tuple2_def spec_list2_def nodes_agree_def default_Node_def)
  moreover have "(2::nat) < length (m_traversal spec_tuple2)"
    by (simp add: spec_tuple2_def)
  ultimately have neq: "operator_eq structural_ne spec_tuple2 spec_list2 \<noteq> Inr True"
    using C5_equality_characterised[of structural_ne spec_tuple2 spec_list2] by blast
  have raise: "operator_eq structural_ne spec_leaf spec_bad_counts
                 = Inl (InternalError ''EXPECT_EQ'')"
    using C5_equality_characterised[of structural_ne spec_leaf spec_bad_counts]
    by (simp add: spec_leaf_def spec_bad_counts_def leaf_node_def default_Node_def
        nodes_agree_def)
  from wf eq neq raise show ?thesis by simp
qed

text \<open>
  The claim for every pair of specs fails on the spec of a leaf and the spec that
  \<^verbatim>\<open>FromPicklable\<close> returns for a leaf that claims five leaves and seven nodes: the
  traversals have length one, the flags and namespaces are equal, the two nodes agree on
  kind, arity, registration and auxiliary data, and \<^verbatim>\<open>operator==\<close> does not return true:
  it raises at the assertion on the counts.
\<close>

theorem C5_equality_counterexample:
  "FromPicklable empty_registry pickled_bad_counts = Inr spec_bad_counts
   \<and> PyTreeSpec_Leaf False = spec_leaf
   \<and> length (m_traversal spec_leaf) = 1 \<and> length (m_traversal spec_bad_counts) = 1
   \<and> m_none_is_leaf spec_leaf = m_none_is_leaf spec_bad_counts
   \<and> m_namespace spec_leaf = m_namespace spec_bad_counts
   \<and> nodes_agree structural_ne (m_traversal spec_leaf ! 0) (m_traversal spec_bad_counts ! 0)
   \<and> operator_eq structural_ne spec_leaf spec_bad_counts = Inl (InternalError ''EXPECT_EQ'')
   \<and> operator_eq structural_ne spec_leaf spec_bad_counts \<noteq> Inr True"
  by (simp add: FromPicklable_bad_counts PyTreeSpec_Leaf_def default_PyTreeSpec_def
      spec_leaf_def spec_bad_counts_def leaf_node_def default_Node_def nodes_agree_def
      operator_eq_def)

section \<open>Hashing\<close>

lemma node_data_hash_agree:
  assumes "hash_agree a b"
  shows "node_data_hash hash_of2 py_hash a = node_data_hash hash_of2 py_hash b"
proof (cases "kind a = Custom")
  case True
  with assms show ?thesis
    by (simp add: hash_agree_def node_data_hash_def)
next
  case False
  with assms have "kind a = kind b" and "arity a = arity b" and "node_data a = node_data b"
    by (simp_all add: hash_agree_def)
  then show ?thesis
    unfolding node_data_hash_def
    by (simp cong: if_cong option.case_cong pyobj.case_cong sum.case_cong)
qed

lemma AbslHashValue_Node_agree:
  assumes "hash_agree a b"
  shows "AbslHashValue_Node combine hash_of2 py_hash h a =
           AbslHashValue_Node combine hash_of2 py_hash h b"
  using assms node_data_hash_agree[OF assms, of hash_of2 py_hash]
  by (simp add: AbslHashValue_Node_def hash_agree_def split: sum.splits)

lemma hash_nodes_agree:
  assumes "list_all2 hash_agree as bs"
  shows "hash_nodes combine hash_of2 py_hash h as = hash_nodes combine hash_of2 py_hash h bs"
  using assms
proof (induction as bs arbitrary: h rule: list_all2_induct)
  case Nil
  then show ?case by simp
next
  case (Cons a as b bs)
  then show ?case
    by (simp add: AbslHashValue_Node_agree[of a b] split: sum.splits)
qed

lemma AbslHashValue_PyTreeSpec_agree:
  assumes "list_all2 hash_agree (m_traversal s) (m_traversal t)"
    and "m_none_is_leaf s = m_none_is_leaf t" and "m_namespace s = m_namespace t"
  shows "AbslHashValue_PyTreeSpec combine hash_of2 py_hash h s =
           AbslHashValue_PyTreeSpec combine hash_of2 py_hash h t"
  using hash_nodes_agree[OF assms(1), of combine hash_of2 py_hash h]
    list_all2_lengthD[OF assms(1)] assms(2,3)
  by (simp add: AbslHashValue_PyTreeSpec_def split: sum.splits)

text \<open>
  Claim C9. The hash of a node is a function of its kind, arity, registration,
  \<open>num_leaves\<close>, \<open>num_nodes\<close> and, for every kind but \<open>Custom\<close>, of its auxiliary data: two
  nodes that agree on these have the same hash, whatever hash state, value hash and
  starting state are used. In particular two \<open>Custom\<close> nodes that agree on the five
  fields hash alike whatever their auxiliary data, and two specs whose nodes agree in
  this way, with the same flag and namespace, have the same hash.
\<close>

theorem C9_custom_node_hash:
  "(hash_agree a b \<longrightarrow>
      AbslHashValue_Node combine hash_of2 py_hash h a =
        AbslHashValue_Node combine hash_of2 py_hash h b)
   \<and> (kind a = Custom \<and> kind b = Custom \<and> arity a = arity b \<and> custom a = custom b
        \<and> num_leaves a = num_leaves b \<and> num_nodes a = num_nodes b \<longrightarrow>
      AbslHashValue_Node combine hash_of2 py_hash h a =
        AbslHashValue_Node combine hash_of2 py_hash h b)
   \<and> (list_all2 hash_agree (m_traversal s) (m_traversal t)
        \<and> m_none_is_leaf s = m_none_is_leaf t \<and> m_namespace s = m_namespace t \<longrightarrow>
      PyTreeSpec_hash combine hash_of2 py_hash h finalize s =
        PyTreeSpec_hash combine hash_of2 py_hash h finalize t)"
proof (intro conjI impI)
  assume "hash_agree a b"
  then show "AbslHashValue_Node combine hash_of2 py_hash h a =
               AbslHashValue_Node combine hash_of2 py_hash h b"
    by (rule AbslHashValue_Node_agree)
next
  assume "kind a = Custom \<and> kind b = Custom \<and> arity a = arity b \<and> custom a = custom b
            \<and> num_leaves a = num_leaves b \<and> num_nodes a = num_nodes b"
  then have "hash_agree a b"
    by (simp add: hash_agree_def)
  then show "AbslHashValue_Node combine hash_of2 py_hash h a =
               AbslHashValue_Node combine hash_of2 py_hash h b"
    by (rule AbslHashValue_Node_agree)
next
  assume "list_all2 hash_agree (m_traversal s) (m_traversal t)
            \<and> m_none_is_leaf s = m_none_is_leaf t \<and> m_namespace s = m_namespace t"
  then have "AbslHashValue_PyTreeSpec combine hash_of2 py_hash h s =
               AbslHashValue_PyTreeSpec combine hash_of2 py_hash h t"
    by (intro AbslHashValue_PyTreeSpec_agree) simp_all
  then show "PyTreeSpec_hash combine hash_of2 py_hash h finalize s =
               PyTreeSpec_hash combine hash_of2 py_hash h finalize t"
    by (simp add: PyTreeSpec_hash_def)
qed

text \<open>
  An instance: two specs that differ only in the auxiliary data of a \<open>Custom\<close> node
  have the same hash, while \<^verbatim>\<open>operator==\<close> tells them apart.
\<close>

theorem C9_custom_node_hash_witness:
  "PyTreeSpec_hash feed mix2 constant_py_hash [] count_fed (spec_custom (PyInt 1)) =
     PyTreeSpec_hash feed mix2 constant_py_hash [] count_fed (spec_custom (PyInt 2))
   \<and> (\<exists>v. PyTreeSpec_hash feed mix2 constant_py_hash [] count_fed (spec_custom (PyInt 1)) = Inr v)
   \<and> operator_eq structural_ne (spec_custom (PyInt 1)) (spec_custom (PyInt 2)) = Inr False"
proof -
  have agree: "list_all2 hash_agree (m_traversal (spec_custom (PyInt 1)))
                 (m_traversal (spec_custom (PyInt 2)))
               \<and> m_none_is_leaf (spec_custom (PyInt 1)) = m_none_is_leaf (spec_custom (PyInt 2))
               \<and> m_namespace (spec_custom (PyInt 1)) = m_namespace (spec_custom (PyInt 2))"
    by (simp add: spec_custom_def hash_agree_def default_Node_def)
  have same: "PyTreeSpec_hash feed mix2 constant_py_hash [] count_fed (spec_custom (PyInt 1)) =
     PyTreeSpec_hash feed mix2 constant_py_hash [] count_fed (spec_custom (PyInt 2))"
    using C9_custom_node_hash[of _ _ feed mix2 constant_py_hash "[]"
        "spec_custom (PyInt 1)" "spec_custom (PyInt 2)" count_fed] agree
    by blast
  have runs: "\<exists>v. PyTreeSpec_hash feed mix2 constant_py_hash [] count_fed (spec_custom (PyInt 1))
                    = Inr v"
    by (simp add: PyTreeSpec_hash_def AbslHashValue_PyTreeSpec_def AbslHashValue_Node_def
        node_data_hash_def spec_custom_def default_Node_def)
  have differ: "operator_eq structural_ne (spec_custom (PyInt 1)) (spec_custom (PyInt 2))
                  = Inr False"
    by (simp add: operator_eq_def spec_custom_def default_Node_def structural_ne_def)
  from same runs differ show ?thesis by simp
qed

section \<open>Path entries are compared and hashed nowhere\<close>

lemma same_but_entries:
  assumes "x\<lparr>node_entries := None\<rparr> = y\<lparr>node_entries := None\<rparr>"
  shows "kind x = kind y" and "arity x = arity y" and "node_data x = node_data y"
    and "custom x = custom y" and "num_leaves x = num_leaves y" and "num_nodes x = num_nodes y"
  using assms by (cases x; cases y; simp)+

lemma map_eq_list_all2:
  "map f xs = map f ys \<longleftrightarrow> list_all2 (\<lambda>x y. f x = f y) xs ys"
proof (induction xs arbitrary: ys)
  case Nil
  then show ?case by auto
next
  case (Cons x xs)
  then show ?case by (cases ys) auto
qed

text \<open>
  Claim C10. Two specs with the same flag and namespace whose traversals are equal
  once the field \<open>node_entries\<close> is blanked in every node are equal for \<^verbatim>\<open>operator==\<close> and
  have the same hash. The host is assumed to report no difference between an object
  and itself, which is how the auxiliary data of the two specs, being identical, are
  compared.
\<close>

theorem C10_node_entries_ignored:
  assumes "host_reflexive ne"
    and "map (\<lambda>n. n\<lparr>node_entries := None\<rparr>) (m_traversal a) =
         map (\<lambda>n. n\<lparr>node_entries := None\<rparr>) (m_traversal b)"
    and "m_none_is_leaf a = m_none_is_leaf b" and "m_namespace a = m_namespace b"
  shows "operator_eq ne a b = Inr True
         \<and> PyTreeSpec_hash combine hash_of2 py_hash h finalize a =
             PyTreeSpec_hash combine hash_of2 py_hash h finalize b"
proof -
  from assms(2)
  have same: "list_all2 (\<lambda>x y. x\<lparr>node_entries := None\<rparr> = y\<lparr>node_entries := None\<rparr>)
                (m_traversal a) (m_traversal b)"
    by (simp add: map_eq_list_all2)
  have refl: "ne x x = Inr False" for x
    using assms(1) by (simp add: host_reflexive_def)
  have "list_all2 (\<lambda>x y. nodes_agree ne x y
                         \<and> num_leaves x = num_leaves y \<and> num_nodes x = num_nodes y)
          (m_traversal a) (m_traversal b)"
    using same
  proof (rule list_all2_mono)
    fix x y :: Node
    assume xy: "x\<lparr>node_entries := None\<rparr> = y\<lparr>node_entries := None\<rparr>"
    show "nodes_agree ne x y \<and> num_leaves x = num_leaves y \<and> num_nodes x = num_nodes y"
      using same_but_entries[OF xy] refl
      by (cases "node_data y") (simp_all add: nodes_agree_def)
  qed
  with assms(3,4) list_all2_lengthD[OF same]
  have eq: "operator_eq ne a b = Inr True"
    by (simp add: operator_eq_True_iff)
  have "list_all2 hash_agree (m_traversal a) (m_traversal b)"
    using same
  proof (rule list_all2_mono)
    fix x y :: Node
    assume xy: "x\<lparr>node_entries := None\<rparr> = y\<lparr>node_entries := None\<rparr>"
    show "hash_agree x y"
      using same_but_entries[OF xy] by (simp add: hash_agree_def)
  qed
  then have "AbslHashValue_PyTreeSpec combine hash_of2 py_hash h a =
               AbslHashValue_PyTreeSpec combine hash_of2 py_hash h b"
    using assms(3,4) by (intro AbslHashValue_PyTreeSpec_agree)
  then have "PyTreeSpec_hash combine hash_of2 py_hash h finalize a =
               PyTreeSpec_hash combine hash_of2 py_hash h finalize b"
    by (simp add: PyTreeSpec_hash_def)
  with eq show ?thesis by simp
qed

theorem C10_node_entries_ignored_witness:
  "host_reflexive structural_ne
   \<and> m_traversal spec_tuple2 \<noteq> m_traversal spec_tuple2_entries
   \<and> operator_eq structural_ne spec_tuple2 spec_tuple2_entries = Inr True
   \<and> PyTreeSpec_hash feed mix2 constant_py_hash [] count_fed spec_tuple2 =
       PyTreeSpec_hash feed mix2 constant_py_hash [] count_fed spec_tuple2_entries
   \<and> PyTreeSpec_hash feed mix2 constant_py_hash [] count_fed spec_tuple2 = Inr 21"
proof -
  have h: "host_reflexive structural_ne"
    "map (\<lambda>n. n\<lparr>node_entries := None\<rparr>) (m_traversal spec_tuple2) =
       map (\<lambda>n. n\<lparr>node_entries := None\<rparr>) (m_traversal spec_tuple2_entries)"
    "m_none_is_leaf spec_tuple2 = m_none_is_leaf spec_tuple2_entries"
    "m_namespace spec_tuple2 = m_namespace spec_tuple2_entries"
    by (simp_all add: host_reflexive_def structural_ne_def spec_tuple2_entries_def)
  have d: "m_traversal spec_tuple2 \<noteq> m_traversal spec_tuple2_entries"
    by (simp add: spec_tuple2_entries_def spec_tuple2_def leaf_node_def default_Node_def)
  have v: "PyTreeSpec_hash feed mix2 constant_py_hash [] count_fed spec_tuple2 = Inr 21"
    by (simp add: PyTreeSpec_hash_def AbslHashValue_PyTreeSpec_def AbslHashValue_Node_def
        node_data_hash_def spec_tuple2_def leaf_node_def default_Node_def constant_py_hash_def
        combine_all_def feed_def count_fed_def)
  from C10_node_entries_ignored[OF h, of feed mix2 constant_py_hash "[]" count_fed] h(1) d v
  show ?thesis by simp
qed

section \<open>Equality against the hash: the namespace\<close>

text \<open>
  \<^verbatim>\<open>operator==\<close> accepts two specs when one of the namespaces is empty, while
  \<^verbatim>\<open>AbslHashValue\<close> feeds the namespace to the hash state. With the same traversal and
  flag the states before the namespace is fed are the same, so the final states are
  equal only if the namespaces are, for every hash state that keeps apart the values
  fed to it in one step.
\<close>

lemma hash_tells_namespaces_apart:
  assumes "m_traversal a = m_traversal b" and "m_none_is_leaf a = m_none_is_leaf b"
    and "AbslHashValue_PyTreeSpec combine hash_of2 py_hash h a = Inr ha"
    and "AbslHashValue_PyTreeSpec combine hash_of2 py_hash h b = Inr hb"
    and "\<And>s x y. combine s x = combine s y \<Longrightarrow> x = y"
  shows "ha = hb \<longleftrightarrow> m_namespace a = m_namespace b"
  using assms(3,4) assms(5)
  by (auto simp: AbslHashValue_PyTreeSpec_def assms(1,2) combine_all_def split: sum.splits)

text \<open>
  Claim C3, evaluated at its failing input. The single-leaf specs with the namespaces
  \<open>''''\<close> and \<open>''ns''\<close> are both results of \<^verbatim>\<open>FromPicklable\<close>; \<^verbatim>\<open>operator==\<close> returns true on
  them, and the hash states they produce differ.
\<close>

theorem C3_equal_specs_hash_differently:
  "FromPicklable empty_registry
     (PyTuple [PyTuple [PyTuple [PyInt 1, PyInt 0, PyNone, PyNone, PyNone, PyInt 1, PyInt 1]],
               PyBool False, PyStr '''']) = Inr spec_leaf
   \<and> FromPicklable empty_registry
     (PyTuple [PyTuple [PyTuple [PyInt 1, PyInt 0, PyNone, PyNone, PyNone, PyInt 1, PyInt 1]],
               PyBool False, PyStr ''ns'']) = Inr (spec_leaf\<lparr>m_namespace := ''ns''\<rparr>)
   \<and> operator_eq structural_ne spec_leaf (spec_leaf\<lparr>m_namespace := ''ns''\<rparr>) = Inr True
   \<and> AbslHashValue_PyTreeSpec feed mix2 constant_py_hash [] spec_leaf =
       Inr [HashKind Leaf, HashSsize 0, HashPtr None, HashSsize 1, HashSsize 1, HashSsize 0,
            HashSize 1, HashBool False, HashString '''']
   \<and> AbslHashValue_PyTreeSpec feed mix2 constant_py_hash [] (spec_leaf\<lparr>m_namespace := ''ns''\<rparr>) =
       Inr [HashKind Leaf, HashSsize 0, HashPtr None, HashSsize 1, HashSsize 1, HashSsize 0,
            HashSize 1, HashBool False, HashString ''ns'']
   \<and> AbslHashValue_PyTreeSpec feed mix2 constant_py_hash [] spec_leaf
       \<noteq> AbslHashValue_PyTreeSpec feed mix2 constant_py_hash []
           (spec_leaf\<lparr>m_namespace := ''ns''\<rparr>)"
  by (simp add: FromPicklable_def FromPicklableImpl_def decode_node_def decode_node_data_def
      decode_custom_def kind_of_ordinal_def is_ssize_t_def spec_leaf_def leaf_node_def
      default_Node_def operator_eq_def structural_ne_def AbslHashValue_PyTreeSpec_def
      AbslHashValue_Node_def node_data_hash_def constant_py_hash_def combine_all_def feed_def)

theorem C3_equal_specs_hash_differently_witness:
  "\<exists>ha hb.
     operator_eq structural_ne spec_leaf (spec_leaf\<lparr>m_namespace := ''ns''\<rparr>) = Inr True
     \<and> AbslHashValue_PyTreeSpec feed mix2 constant_py_hash [] spec_leaf = Inr ha
     \<and> AbslHashValue_PyTreeSpec feed mix2 constant_py_hash []
          (spec_leaf\<lparr>m_namespace := ''ns''\<rparr>) = Inr hb
     \<and> ha \<noteq> hb"
  using C3_equal_specs_hash_differently by auto

section \<open>The count invariants along the construction paths\<close>

lemma count_leaves_compose_loop:
  "count_leaves (compose_loop inner il inn ns) = count_leaves ns * count_leaves inner"
  by (induction ns) (simp_all add: count_leaves_def)

lemma length_compose_loop:
  "int (length (compose_loop inner il inn ns)) =
     (int (length ns) - int (count_leaves ns)) + int (count_leaves ns) * int (length inner)"
  by (induction ns) (simp_all add: count_leaves_def algebra_simps)

lemma compose_loop_nonempty:
  assumes "ns \<noteq> []" and "inner \<noteq> []"
  shows "compose_loop inner il inn ns \<noteq> []"
  using assms by (cases ns) auto

lemma count_invariants_Leaf: "count_invariants (PyTreeSpec_Leaf none_is_leaf)"
  by (simp add: count_invariants_def PyTreeSpec_Leaf_def default_PyTreeSpec_def
      default_Node_def count_leaves_def)

lemma count_invariants_None: "count_invariants (PyTreeSpec_None none_is_leaf)"
  by (simp add: count_invariants_def PyTreeSpec_None_def PyTreeSpec_Leaf_def
      default_PyTreeSpec_def default_Node_def count_leaves_def)

lemma count_invariants_Tuple:
  assumes "\<forall>t\<in>set ts. count_invariants t"
    and "PyTreeSpec_Tuple ts none_is_leaf = Inr r"
  shows "count_invariants r"
proof -
  from assms(1) have ne: "\<forall>t\<in>set ts. m_traversal t \<noteq> []"
    by (simp add: count_invariants_def)
  from assms(2) obtain ns where r:
    "r = \<lparr>m_traversal = concat (map m_traversal ts) @
            [default_Node\<lparr>kind := Tuple, arity := int (length ts),
               num_leaves := sum_list (map (\<lambda>t. num_leaves (root t)) ts),
               num_nodes := int (length (concat (map m_traversal ts))) + 1\<rparr>],
          m_none_is_leaf = none_is_leaf, m_namespace = ns\<rparr>"
    by (auto simp: PyTreeSpec_Tuple_def tuple_collect_ok[OF ne] split: sum.splits)
  have "sum_list (map (\<lambda>t. num_leaves (root t)) ts) =
          sum_list (map (\<lambda>xs. int (count_leaves xs)) (map m_traversal ts))"
    using assms(1) by (induction ts) (simp_all add: count_invariants_def root_def)
  then have "sum_list (map (\<lambda>t. num_leaves (root t)) ts) =
               int (count_leaves (concat (map m_traversal ts)))"
    by (simp add: count_leaves_concat)
  then show ?thesis
    by (simp add: r count_invariants_def default_Node_def) (simp add: count_leaves_def)
qed

lemma count_invariants_Compose:
  assumes "count_invariants outer" and "count_invariants inner"
    and "Compose outer inner = Inr r"
  shows "count_invariants r"
proof -
  from assms(1) have one: "m_traversal outer \<noteq> []"
    and ol: "num_leaves (last (m_traversal outer)) = int (count_leaves (m_traversal outer))"
    by (simp_all add: count_invariants_def)
  from assms(2) have ine: "m_traversal inner \<noteq> []"
    and il: "num_leaves (last (m_traversal inner)) = int (count_leaves (m_traversal inner))"
    by (simp_all add: count_invariants_def)
  let ?tr = "compose_loop (m_traversal inner) (num_leaves (last (m_traversal inner)))
               (int (length (m_traversal inner))) (m_traversal outer)"
  from assms(3) one ine have tr: "m_traversal r = ?tr"
    and leaves: "num_leaves (last ?tr) =
                   num_leaves (last (m_traversal outer)) * num_leaves (last (m_traversal inner))"
    and nodes: "num_nodes (last ?tr) =
                  (int (length (m_traversal outer)) - num_leaves (last (m_traversal outer)))
                    + num_leaves (last (m_traversal outer)) * int (length (m_traversal inner))"
    by (auto simp: Compose_def PyTreeSpec_num_leaves_def PyTreeSpec_num_nodes_def Let_def
        split: if_splits)
  have "?tr \<noteq> []"
    using one ine by (rule compose_loop_nonempty)
  moreover have "num_leaves (last ?tr) = int (count_leaves ?tr)"
    unfolding leaves count_leaves_compose_loop by (simp add: ol il)
  moreover have "num_nodes (last ?tr) = int (length ?tr)"
    unfolding nodes length_compose_loop by (simp add: ol)
  ultimately show ?thesis
    by (simp add: count_invariants_def tr)
qed

text \<open>Decoding a pickled node, when it succeeds, returns the kind, arity and counts.\<close>

lemma kind_of_ordinal_kind_ordinal [simp]: "kind_of_ordinal (kind_ordinal k) = Some k"
  by (cases k) (simp_all add: kind_of_ordinal_def)

lemma decode_node_state_counts:
  assumes "decode_node lookup none_is_leaf ns (node_state reg_type n) = Inr n'"
  shows "kind n' = kind n \<and> arity n' = arity n
         \<and> num_leaves n' = num_leaves n \<and> num_nodes n' = num_nodes n"
  using assms
  by (auto simp: decode_node_def node_state_def split: sum.splits if_splits)

lemma decode_nodes_state_counts:
  assumes "decode_nodes lookup none_is_leaf ns (map (node_state reg_type) nodes) = Inr nodes'"
  shows "list_all2 (\<lambda>n' n. kind n' = kind n \<and> arity n' = arity n
                          \<and> num_leaves n' = num_leaves n \<and> num_nodes n' = num_nodes n)
           nodes' nodes"
  using assms
proof (induction nodes arbitrary: nodes')
  case Nil
  then show ?case by simp
next
  case (Cons n nodes)
  from Cons.prems obtain m ms where
    m: "decode_node lookup none_is_leaf ns (node_state reg_type n) = Inr m"
    and ms: "decode_nodes lookup none_is_leaf ns (map (node_state reg_type) nodes) = Inr ms"
    and eq: "nodes' = m # ms"
    by (auto split: sum.splits)
  from decode_node_state_counts[OF m] Cons.IH[OF ms] eq show ?case
    by simp
qed

lemma count_invariants_cong:
  assumes "list_all2 (\<lambda>n' n. kind n' = kind n \<and> arity n' = arity n
                          \<and> num_leaves n' = num_leaves n \<and> num_nodes n' = num_nodes n)
             (m_traversal s') (m_traversal s)"
    and "count_invariants s"
  shows "count_invariants s'"
proof -
  from assms(1) have len: "length (m_traversal s') = length (m_traversal s)"
    by (rule list_all2_lengthD)
  from assms(2) have ne: "m_traversal s \<noteq> []"
    by (simp add: count_invariants_def)
  with len have ne': "m_traversal s' \<noteq> []"
    by auto
  have cl: "count_leaves xs = count_leaves ys"
    if "list_all2 (\<lambda>n' n. kind n' = kind n \<and> arity n' = arity n
                          \<and> num_leaves n' = num_leaves n \<and> num_nodes n' = num_nodes n) xs ys"
    for xs ys
    using that by (induction xs ys rule: list_all2_induct) (simp_all add: count_leaves_def)
  have lastn: "num_leaves (last (m_traversal s')) = num_leaves (last (m_traversal s))
               \<and> num_nodes (last (m_traversal s')) = num_nodes (last (m_traversal s))"
    using assms(1) ne ne' len
    by (simp add: last_conv_nth list_all2_conv_all_nth)
  with cl[OF assms(1)] len ne' assms(2) show ?thesis
    by (simp add: count_invariants_def)
qed

lemma count_invariants_round_trip:
  assumes "count_invariants s"
    and "FromPicklable lookup (ToPicklable reg_type s) = Inr s'"
  shows "count_invariants s'"
proof -
  from assms(2) obtain nodes' where
    d: "decode_nodes lookup (m_none_is_leaf s) (m_namespace s)
          (map (node_state reg_type) (m_traversal s)) = Inr nodes'"
    and s': "m_traversal s' = nodes'"
    by (auto simp: FromPicklable_def FromPicklableImpl_def ToPicklable_def split: sum.splits)
  from decode_nodes_state_counts[OF d] s' assms(1) show ?thesis
    by (intro count_invariants_cong[of s' s]) simp_all
qed

text \<open>
  Claim C4, as amended. \<^verbatim>\<open>Leaf\<close> and \<^verbatim>\<open>None\<close> return specs that satisfy the count
  invariants; \<^verbatim>\<open>Tuple\<close> and \<^verbatim>\<open>Compose\<close> return such a spec when their operands satisfy
  them; and \<^verbatim>\<open>FromPicklable\<close> returns such a spec when it is given the pickled form of
  a spec that satisfies them. (The counts of any other input are stored as they are
  read.)
\<close>

theorem C4_count_invariants_preserved:
  "count_invariants (PyTreeSpec_Leaf none_is_leaf)
   \<and> count_invariants (PyTreeSpec_None none_is_leaf)
   \<and> ((\<forall>t\<in>set ts. count_invariants t) \<and> PyTreeSpec_Tuple ts none_is_leaf = Inr r
        \<longrightarrow> count_invariants r)
   \<and> (count_invariants outer \<and> count_invariants inner \<and> Compose outer inner = Inr r'
        \<longrightarrow> count_invariants r')
   \<and> (count_invariants s \<and> FromPicklable lookup (ToPicklable reg_type s) = Inr s'
        \<longrightarrow> count_invariants s')"
  using count_invariants_Leaf count_invariants_None count_invariants_Tuple
    count_invariants_Compose count_invariants_round_trip
  by blast

text \<open>
  The claim as stated fails: \<^verbatim>\<open>FromPicklable\<close> accepts a single \<open>Leaf\<close> that claims five
  leaves and seven nodes, and an empty tuple of nodes.
\<close>

theorem C4_from_picklable_counterexample:
  "FromPicklable empty_registry pickled_bad_counts = Inr spec_bad_counts
   \<and> num_leaves (root spec_bad_counts) = 5 \<and> count_leaves (m_traversal spec_bad_counts) = 1
   \<and> num_nodes (root spec_bad_counts) = 7 \<and> length (m_traversal spec_bad_counts) = 1
   \<and> \<not> count_invariants spec_bad_counts
   \<and> FromPicklable empty_registry (PyTuple [PyTuple [], PyBool False, PyStr ''''])
       = Inr default_PyTreeSpec
   \<and> \<not> count_invariants default_PyTreeSpec"
  by (simp add: FromPicklable_def FromPicklableImpl_def decode_node_def decode_node_data_def
      decode_custom_def kind_of_ordinal_def is_ssize_t_def pickled_bad_counts_def
      spec_bad_counts_def default_Node_def default_PyTreeSpec_def count_invariants_def
      count_leaves_def root_def)

theorem C4_count_invariants_preserved_witness:
  "count_invariants spec_leaf \<and> count_invariants spec_list2 \<and> count_invariants spec_tuple2
   \<and> (\<exists>r. PyTreeSpec_Tuple [spec_leaf, spec_tuple2] False = Inr r \<and> count_invariants r)
   \<and> (\<exists>r. Compose spec_list2 spec_tuple2 = Inr r \<and> count_invariants r)
   \<and> (\<exists>s'. FromPicklable one_registry (ToPicklable one_reg_type spec_tuple2) = Inr s'
           \<and> count_invariants s')"
proof -
  have h: "count_invariants spec_leaf" "count_invariants spec_list2"
    "count_invariants spec_tuple2"
    by (simp_all add: spec_leaf_def spec_list2_def spec_tuple2_def leaf_node_def
        default_Node_def count_invariants_def count_leaves_def)
  have hs: "\<forall>t\<in>set [spec_leaf, spec_tuple2]. count_invariants t"
    using h by simp
  obtain r1 where r1: "PyTreeSpec_Tuple [spec_leaf, spec_tuple2] False = Inr r1"
    by (simp add: PyTreeSpec_Tuple_def PyTreeSpec_num_leaves_def spec_leaf_def spec_tuple2_def)
  obtain r2 where r2: "Compose spec_list2 spec_tuple2 = Inr r2"
    by (simp add: Compose_def PyTreeSpec_num_leaves_def PyTreeSpec_num_nodes_def
        spec_list2_def spec_tuple2_def leaf_node_def default_Node_def)
  obtain r3 where r3: "FromPicklable one_registry (ToPicklable one_reg_type spec_tuple2) = Inr r3"
    by (simp add: FromPicklable_def FromPicklableImpl_def ToPicklable_def node_state_def
        decode_node_def decode_node_data_def decode_custom_def kind_of_ordinal_def
        is_ssize_t_def spec_tuple2_def leaf_node_def default_Node_def)
  from C4_count_invariants_preserved[of False "[spec_leaf, spec_tuple2]" r1
      spec_list2 spec_tuple2 r2 spec_tuple2 one_registry one_reg_type r3]
    h hs r1 r2 r3
  show ?thesis by simp
qed

section \<open>Pickling round trip\<close>

text \<open>
  Decoding the state of a node whose fields are as the data model has them, with a
  registry that resolves its registration, gives the node back.
\<close>

lemma decode_node_data_round_trip:
  assumes "node_data_ok n"
  shows "decode_node_data (kind n) (case node_data n of Some d \<Rightarrow> d | None \<Rightarrow> PyNone)
           = Inr (node_data n)"
  using assms
  by (auto simp: node_data_ok_def decode_node_data_def
      split: if_splits option.splits pyobj.splits)

lemma decode_custom_round_trip:
  assumes "(kind n = Custom) = (custom n \<noteq> None)"
    and "case node_entries n of None \<Rightarrow> True | Some (PyTuple es) \<Rightarrow> kind n = Custom
         | Some _ \<Rightarrow> False"
    and "node_resolves lookup reg_type none_is_leaf ns n"
  shows "decode_custom lookup none_is_leaf ns (kind n)
           (case node_entries n of Some e \<Rightarrow> e | None \<Rightarrow> PyNone)
           (case custom n of Some p \<Rightarrow> reg_type p | None \<Rightarrow> PyNone)
         = Inr (node_entries n, custom n)"
  using assms
  by (auto simp: decode_custom_def node_resolves_def split: option.splits pyobj.splits)

lemma decode_node_round_trip:
  assumes "node_fields_ok n"
    and "node_resolves lookup reg_type none_is_leaf ns n"
  shows "decode_node lookup none_is_leaf ns (node_state reg_type n) = Inr n"
proof -
  from assms(1) have data: "node_data_ok n"
    and cu: "(kind n = Custom) = (custom n \<noteq> None)"
    and en: "case node_entries n of None \<Rightarrow> True | Some (PyTuple es) \<Rightarrow> kind n = Custom
             | Some _ \<Rightarrow> False"
    and ints: "is_ssize_t (arity n)" "is_ssize_t (num_leaves n)" "is_ssize_t (num_nodes n)"
    by (simp_all add: node_fields_ok_def)
  have ord: "is_ssize_t (kind_ordinal (kind n))"
    by (cases "kind n") (simp_all add: is_ssize_t_def)
  show ?thesis
    by (simp add: decode_node_def node_state_def ord ints
        decode_node_data_round_trip[OF data]
        decode_custom_round_trip[OF cu en assms(2)])
qed

lemma decode_nodes_round_trip:
  assumes "list_all node_fields_ok nodes"
    and "list_all (node_resolves lookup reg_type none_is_leaf ns) nodes"
  shows "decode_nodes lookup none_is_leaf ns (map (node_state reg_type) nodes) = Inr nodes"
  using assms by (induction nodes) (simp_all add: decode_node_round_trip)

lemma FromPicklable_ToPicklable:
  assumes "list_all node_fields_ok (m_traversal s)" and "registry_resolves lookup reg_type s"
  shows "FromPicklable lookup (ToPicklable reg_type s) = Inr s"
  using decode_nodes_round_trip[OF assms(1) assms(2)[unfolded registry_resolves_def]]
  by (simp add: FromPicklable_def FromPicklableImpl_def ToPicklable_def)

lemma nodes_agree_refl:
  assumes "host_reflexive ne"
  shows "nodes_agree ne n n"
  using assms by (cases "node_data n") (simp_all add: nodes_agree_def host_reflexive_def)

lemma operator_eq_refl:
  assumes "host_reflexive ne"
  shows "operator_eq ne s s = Inr True"
  unfolding operator_eq_True_iff
  by (simp add: list_all2_same nodes_agree_refl[OF assms])

text \<open>
  Claim C2, as amended. For a spec whose nodes have the fields of the data model (which
  a well-formed spec has) and whose \<open>Custom\<close> nodes each point to the registration that
  the registry resolves for the type of the node in the namespace and mode of the spec,
  and a host that reports no difference between an object and itself, decoding the
  pickled form succeeds and returns a spec equal to the original for \<^verbatim>\<open>operator==\<close>.
  The decoded spec is in fact the original one: flag, namespace and every field of
  every node are the same.
\<close>

theorem C2_pickle_round_trip:
  assumes "list_all node_fields_ok (m_traversal s)"
    and "registry_resolves lookup reg_type s"
    and "host_reflexive ne"
  shows "\<exists>s'. FromPicklable lookup (ToPicklable reg_type s) = Inr s'
           \<and> operator_eq ne s' s = Inr True
           \<and> m_none_is_leaf s' = m_none_is_leaf s \<and> m_namespace s' = m_namespace s
           \<and> m_traversal s' = m_traversal s"
  using FromPicklable_ToPicklable[OF assms(1,2)] operator_eq_refl[OF assms(3)]
  by simp

theorem C2_pickle_round_trip_witness:
  "well_formed spec_custom_dict
   \<and> registry_resolves one_registry one_reg_type spec_custom_dict
   \<and> host_reflexive structural_ne
   \<and> ToPicklable one_reg_type spec_custom_dict =
       PyTuple [PyTuple [PyTuple [PyInt 1, PyInt 0, PyNone, PyNone, PyNone, PyInt 1, PyInt 1],
                         PyTuple [PyInt 5, PyInt 1, PyList [PyStr ''k''], PyNone, PyNone,
                                  PyInt 1, PyInt 2],
                         PyTuple [PyInt 0, PyInt 1, PyInt 7, PyTuple [PyStr ''a''],
                                  PyType ''MyNode'', PyInt 1, PyInt 3]],
                PyBool False, PyStr ''ns'']
   \<and> FromPicklable one_registry (ToPicklable one_reg_type spec_custom_dict)
       = Inr spec_custom_dict
   \<and> operator_eq structural_ne spec_custom_dict spec_custom_dict = Inr True"
proof -
  have fields: "list_all node_fields_ok (m_traversal spec_custom_dict)"
    by (simp add: spec_custom_dict_def node_fields_ok_def node_data_ok_def is_ssize_t_def
        leaf_node_def default_Node_def)
  have "well_formed_structure spec_custom_dict"
    by (simp add: well_formed_structure_def spec_custom_dict_def replay_step_def
        leaf_node_def default_Node_def)
  with fields have wf: "well_formed spec_custom_dict"
    by (simp add: well_formed_def)
  have reg: "registry_resolves one_registry one_reg_type spec_custom_dict"
    by (simp add: registry_resolves_def node_resolves_def spec_custom_dict_def
        one_registry_def one_reg_type_def leaf_node_def default_Node_def)
  have host: "host_reflexive structural_ne"
    by (simp add: host_reflexive_def structural_ne_def)
  have pickled: "ToPicklable one_reg_type spec_custom_dict =
       PyTuple [PyTuple [PyTuple [PyInt 1, PyInt 0, PyNone, PyNone, PyNone, PyInt 1, PyInt 1],
                         PyTuple [PyInt 5, PyInt 1, PyList [PyStr ''k''], PyNone, PyNone,
                                  PyInt 1, PyInt 2],
                         PyTuple [PyInt 0, PyInt 1, PyInt 7, PyTuple [PyStr ''a''],
                                  PyType ''MyNode'', PyInt 1, PyInt 3]],
                PyBool False, PyStr ''ns'']"
    by (simp add: ToPicklable_def node_state_def spec_custom_dict_def one_reg_type_def
        leaf_node_def default_Node_def)
  from C2_pickle_round_trip[OF fields reg host]
  obtain s' where d: "FromPicklable one_registry (ToPicklable one_reg_type spec_custom_dict) = Inr s'"
    and eq: "operator_eq structural_ne s' spec_custom_dict = Inr True"
    and f: "m_none_is_leaf s' = m_none_is_leaf spec_custom_dict"
      "m_namespace s' = m_namespace spec_custom_dict"
      "m_traversal s' = m_traversal spec_custom_dict"
    by blast
  from f have "s' = spec_custom_dict"
    by (cases s'; cases spec_custom_dict) simp
  with d eq wf reg host pickled show ?thesis
    by simp
qed

text \<open>
  The claim for every well-formed spec fails on a spec that holds two registrations of
  one type. With \<open>MyNode\<close> registered in the namespace \<open>ns1\<close> and in the default namespace,
  the specs of a \<open>MyNode\<close> flattened in either namespace point to the registration the
  registry resolves there; \<^verbatim>\<open>Tuple\<close> accepts the two (one namespace is empty) and returns
  a well-formed spec in the namespace \<open>ns1\<close>. Its pickled form names the type twice, the
  decoder resolves both nodes in \<open>ns1\<close>, and the decoded spec is not equal to the
  original, whose second node points to the other registration.
\<close>

theorem C2_pickle_round_trip_counterexample:
  "registry_resolves two_registry one_reg_type spec_custom_ns1
   \<and> registry_resolves two_registry one_reg_type (spec_custom (PyInt 7))
   \<and> PyTreeSpec_Tuple [spec_custom_ns1, spec_custom (PyInt 7)] False = Inr spec_mixed
   \<and> well_formed spec_mixed
   \<and> FromPicklable two_registry (ToPicklable one_reg_type spec_mixed) = Inr spec_mixed_decoded
   \<and> operator_eq structural_ne spec_mixed_decoded spec_mixed = Inr False"
  by (simp add: registry_resolves_def node_resolves_def two_registry_def one_reg_type_def
      spec_custom_ns1_def spec_custom_def spec_mixed_def spec_mixed_decoded_def
      custom_node_def default_Node_def PyTreeSpec_Tuple_def PyTreeSpec_num_leaves_def
      well_formed_def well_formed_structure_def replay_step_def node_fields_ok_def
      node_data_ok_def is_ssize_t_def FromPicklable_def FromPicklableImpl_def
      ToPicklable_def node_state_def decode_node_def decode_node_data_def decode_custom_def
      kind_of_ordinal_def operator_eq_def structural_ne_def)

text \<open>
  No registry helps: the decoder resolves the one type in the one namespace to one
  registration, and the two nodes of the original point to two.
\<close>

lemma spec_mixed_never_round_trips:
  "\<not> (\<exists>s'. FromPicklable lookup (ToPicklable one_reg_type spec_mixed) = Inr s'
          \<and> operator_eq ne s' spec_mixed = Inr True)"
proof
  assume "\<exists>s'. FromPicklable lookup (ToPicklable one_reg_type spec_mixed) = Inr s'
            \<and> operator_eq ne s' spec_mixed = Inr True"
  then obtain s' where d: "FromPicklable lookup (ToPicklable one_reg_type spec_mixed) = Inr s'"
    and eq: "operator_eq ne s' spec_mixed = Inr True"
    by blast
  from d obtain p where
    "m_traversal s' =
       [custom_node p, custom_node p,
        default_Node\<lparr>kind := Tuple, arity := 2, num_leaves := 0, num_nodes := 3\<rparr>]"
    by (auto simp: FromPicklable_def FromPicklableImpl_def ToPicklable_def node_state_def
        decode_node_def decode_node_data_def decode_custom_def kind_of_ordinal_def
        is_ssize_t_def one_reg_type_def spec_mixed_def custom_node_def default_Node_def
        split: option.splits sum.splits if_splits)
  with eq show False
    by (auto simp: operator_eq_True_iff spec_mixed_def nodes_agree_def custom_node_def
        default_Node_def)
qed

section \<open>Children and reassembly\<close>

text \<open>
  The loop of \<^verbatim>\<open>Children\<close> walks back over closed slices and finds them one by one.
\<close>

lemma children_loop_slices:
  assumes "m_traversal s = concat cs @ rest"
    and "\<forall>c\<in>set cs. c \<noteq> [] \<and> num_nodes (last c) = int (length c)"
  shows "children_loop s (length cs) (int (length (concat cs))) acc =
           Inr (map (child_spec s) cs @ acc, 0)"
  using assms
proof (induction cs arbitrary: rest acc rule: rev_induct)
  case Nil
  then show ?case by simp
next
  case (snoc c cs)
  from snoc.prems(2) have c: "c \<noteq> []" "num_nodes (last c) = int (length c)"
    by simp_all
  let ?pos = "int (length (concat (cs @ [c])))"
  have tr: "m_traversal s = concat cs @ c @ rest"
    using snoc.prems(1) by simp
  have pos: "?pos = int (length (concat cs)) + int (length c)"
    by simp
  have inside: "\<not> (?pos - 1 < 0 \<or> int (length (m_traversal s)) \<le> ?pos - 1)"
    using c(1) by (simp add: tr) (cases c; simp)
  have idx: "nat (?pos - 1) = length (concat cs) + (length c - 1)"
    using c(1) by (cases c) simp_all
  have node: "m_traversal s ! nat (?pos - 1) = last c"
    unfolding idx using c(1) by (simp add: tr nth_append last_conv_nth)
  have slice: "take (nat (num_nodes (last c)))
                 (drop (nat (?pos - num_nodes (last c))) (m_traversal s)) = c"
    by (simp add: c(2) tr)
  have prev: "?pos - num_nodes (last c) = int (length (concat cs))"
    by (simp add: c(2))
  have "children_loop s (length (cs @ [c])) ?pos acc =
          children_loop s (length cs) (int (length (concat cs))) (child_spec s c # acc)"
    using inside
    by (simp only: length_append_singleton children_loop.simps node Let_def slice prev
        c(2) child_spec_def) (simp add: tr)
  also have "\<dots> = Inr (map (child_spec s) cs @ child_spec s c # acc, 0)"
    using snoc.prems(2) by (intro snoc.IH[of "c @ rest"]) (simp_all add: tr)
  finally show ?case by simp
qed

lemma Children_of_slices:
  assumes "m_traversal s = concat cs @ [root s]"
    and "int (length cs) = arity (root s)"
    and "\<forall>c\<in>set cs. c \<noteq> [] \<and> num_nodes (last c) = int (length c)"
  shows "Children s = Inr (map (child_spec s) cs)"
proof -
  have ne: "m_traversal s \<noteq> []"
    using assms(1) by auto
  have ar: "nat (arity (last (m_traversal s))) = length cs" "\<not> arity (last (m_traversal s)) < 0"
    using assms(2) by (simp_all add: root_def [symmetric])
  have pos: "int (length (m_traversal s)) - 1 = int (length (concat cs))"
    by (subst assms(1)) simp
  show ?thesis
    using ne
    by (simp add: Children_def Let_def ar pos children_loop_slices[OF assms(1,3)])
qed

lemma tuple_check_same:
  assumes "\<forall>t\<in>set ts. m_none_is_leaf t = nil \<and> m_namespace t = ns"
    and "acc = [] \<or> acc = ns"
  shows "tuple_check nil acc ts = Inr (if ts = [] \<or> ns = [] then acc else ns)"
  using assms
proof (induction ts arbitrary: acc)
  case Nil
  then show ?case by simp
next
  case (Cons t ts)
  from Cons.prems(1) have t: "m_none_is_leaf t = nil" "m_namespace t = ns"
    and rest: "\<forall>t\<in>set ts. m_none_is_leaf t = nil \<and> m_namespace t = ns"
    by simp_all
  show ?case
  proof (cases "ns = []")
    case True
    with t Cons.IH[OF rest Cons.prems(2)] show ?thesis
      by simp
  next
    case False
    have "tuple_check nil ns ts = Inr (if ts = [] \<or> ns = [] then ns else ns)"
      by (rule Cons.IH[OF rest]) simp
    with False t Cons.prems(2) show ?thesis
      by auto
  qed
qed

lemma Tuple_of_children:
  assumes "\<forall>c\<in>set cs. c \<noteq> []"
  shows "\<exists>ns. PyTreeSpec_Tuple (map (child_spec s) cs) (m_none_is_leaf s) =
                 Inr \<lparr>m_traversal = concat cs @
                        [default_Node\<lparr>kind := Tuple, arity := int (length cs),
                           num_leaves := sum_list (map (\<lambda>c. num_leaves (last c)) cs),
                           num_nodes := int (length (concat cs)) + 1\<rparr>],
                      m_none_is_leaf = m_none_is_leaf s, m_namespace = ns\<rparr>
              \<and> (ns = m_namespace s \<or> ns = [])"
proof -
  let ?ts = "map (child_spec s) cs"
  let ?ns = "if ?ts = [] \<or> m_namespace s = [] then [] else m_namespace s"
  have same: "\<forall>t\<in>set ?ts. m_none_is_leaf t = m_none_is_leaf s \<and> m_namespace t = m_namespace s"
    by (simp add: child_spec_def)
  have chk: "tuple_check (m_none_is_leaf s) [] ?ts = Inr ?ns"
    by (rule tuple_check_same[OF same]) simp
  have ne: "\<forall>t\<in>set ?ts. m_traversal t \<noteq> []"
    using assms by (simp add: child_spec_def)
  have trav: "concat (map m_traversal ?ts) = concat cs"
    by (simp add: child_spec_def comp_def)
  have leaves: "sum_list (map (\<lambda>t. num_leaves (root t)) ?ts) =
                  sum_list (map (\<lambda>c. num_leaves (last c)) cs)"
    by (simp add: child_spec_def comp_def root_def)
  have "PyTreeSpec_Tuple ?ts (m_none_is_leaf s) =
          Inr \<lparr>m_traversal = concat cs @
                 [default_Node\<lparr>kind := Tuple, arity := int (length cs),
                    num_leaves := sum_list (map (\<lambda>c. num_leaves (last c)) cs),
                    num_nodes := int (length (concat cs)) + 1\<rparr>],
               m_none_is_leaf = m_none_is_leaf s, m_namespace = ?ns\<rparr>"
    unfolding PyTreeSpec_Tuple_def chk tuple_collect_ok[OF ne] trav leaves
    by simp
  moreover have "?ns = m_namespace s \<or> ?ns = []"
    by simp
  ultimately show ?thesis
    by blast
qed

text \<open>
  Claim C6. For a well-formed spec whose root is a \<open>Tuple\<close>, and a host that reports no
  difference between an object and itself, \<^verbatim>\<open>Children\<close> returns as many specs as the
  arity of the root, each with the flag and the namespace of the spec; their traversals
  concatenated, followed by the root, are the traversal of the spec; and \<^verbatim>\<open>Tuple\<close>
  applied to them and the flag returns a spec equal to the original for \<^verbatim>\<open>operator==\<close>.
\<close>

theorem C6_children_reassembly:
  assumes "well_formed s" and "kind (root s) = Tuple" and "host_reflexive ne"
  shows "\<exists>cs r. Children s = Inr cs
           \<and> int (length cs) = arity (root s)
           \<and> (\<forall>c\<in>set cs. m_none_is_leaf c = m_none_is_leaf s \<and> m_namespace c = m_namespace s)
           \<and> concat (map m_traversal cs) @ [root s] = m_traversal s
           \<and> PyTreeSpec_Tuple cs (m_none_is_leaf s) = Inr r
           \<and> operator_eq ne r s = Inr True"
proof -
  from assms(1) have wfs: "well_formed_structure s"
    and fields: "list_all node_fields_ok (m_traversal s)"
    by (simp_all add: well_formed_def)
  from wfs obtain cs where tr: "m_traversal s = concat cs @ [root s]"
    and ar: "int (length cs) = arity (root s)"
    and cl: "\<forall>c\<in>set cs. c \<noteq> [] \<and> num_nodes (last c) = int (length c)"
    and nn: "num_nodes (root s) = 1 + int (length (concat cs))"
    and nl: "kind (root s) \<noteq> Leaf \<longrightarrow>
               num_leaves (root s) = sum_list (map (\<lambda>c. num_leaves (last c)) cs)"
    by (rule well_formed_structure_children)
  have children: "Children s = Inr (map (child_spec s) cs)"
    using tr ar cl by (rule Children_of_slices)
  from cl have "\<forall>c\<in>set cs. c \<noteq> []"
    by simp
  from Tuple_of_children[OF this, of s]
  obtain ns where tuple:
    "PyTreeSpec_Tuple (map (child_spec s) cs) (m_none_is_leaf s) =
       Inr \<lparr>m_traversal = concat cs @
              [default_Node\<lparr>kind := Tuple, arity := int (length cs),
                 num_leaves := sum_list (map (\<lambda>c. num_leaves (last c)) cs),
                 num_nodes := int (length (concat cs)) + 1\<rparr>],
            m_none_is_leaf = m_none_is_leaf s, m_namespace = ns\<rparr>"
    and ns: "ns = m_namespace s \<or> ns = []"
    by blast
  let ?new = "default_Node\<lparr>kind := Tuple, arity := int (length cs),
                 num_leaves := sum_list (map (\<lambda>c. num_leaves (last c)) cs),
                 num_nodes := int (length (concat cs)) + 1\<rparr>"
  let ?r = "\<lparr>m_traversal = concat cs @ [?new],
             m_none_is_leaf = m_none_is_leaf s, m_namespace = ns\<rparr>"
  have "root s \<in> set (m_traversal s)"
    by (subst tr) simp
  with fields have "node_fields_ok (root s)"
    by (simp add: list_all_iff)
  with assms(2) have plain: "node_data (root s) = None" "custom (root s) = None"
    by (auto simp: node_fields_ok_def node_data_ok_def)
  have roots: "nodes_agree ne ?new (root s)
               \<and> num_leaves ?new = num_leaves (root s) \<and> num_nodes ?new = num_nodes (root s)"
    using assms(2) plain ar nn nl
    by (simp add: nodes_agree_def default_Node_def)
  have "list_all2 (\<lambda>x y. nodes_agree ne x y
                        \<and> num_leaves x = num_leaves y \<and> num_nodes x = num_nodes y)
          (concat cs @ [?new]) (concat cs @ [root s])"
  proof (rule list_all2_appendI)
    show "list_all2 (\<lambda>x y. nodes_agree ne x y
                        \<and> num_leaves x = num_leaves y \<and> num_nodes x = num_nodes y)
            (concat cs) (concat cs)"
      by (simp add: list_all2_same nodes_agree_refl[OF assms(3)])
    show "list_all2 (\<lambda>x y. nodes_agree ne x y
                        \<and> num_leaves x = num_leaves y \<and> num_nodes x = num_nodes y)
            [?new] [root s]"
      using roots by (simp only: list_all2_Cons list_all2_Nil simp_thms)
  qed
  then have pairs: "list_all2 (\<lambda>x y. nodes_agree ne x y
                        \<and> num_leaves x = num_leaves y \<and> num_nodes x = num_nodes y)
          (m_traversal ?r) (m_traversal s)"
    by (subst tr) simp
  have "length (m_traversal ?r) = length (m_traversal s)"
    by (subst tr) simp
  with pairs ns have eq: "operator_eq ne ?r s = Inr True"
    unfolding operator_eq_True_iff by auto
  have same: "\<forall>c\<in>set (map (child_spec s) cs).
                m_none_is_leaf c = m_none_is_leaf s \<and> m_namespace c = m_namespace s"
    by (simp add: child_spec_def)
  have cat: "concat (map m_traversal (map (child_spec s) cs)) @ [root s] = m_traversal s"
    by (simp add: tr child_spec_def comp_def)
  have len: "int (length (map (child_spec s) cs)) = arity (root s)"
    using ar by simp
  show ?thesis
  proof (rule exI[of _ "map (child_spec s) cs"], rule exI[of _ ?r], intro conjI)
    show "Children s = Inr (map (child_spec s) cs)"
      by (fact children)
    show "int (length (map (child_spec s) cs)) = arity (root s)"
      by (fact len)
    show "\<forall>c\<in>set (map (child_spec s) cs).
            m_none_is_leaf c = m_none_is_leaf s \<and> m_namespace c = m_namespace s"
      by (fact same)
    show "concat (map m_traversal (map (child_spec s) cs)) @ [root s] = m_traversal s"
      by (fact cat)
    show "PyTreeSpec_Tuple (map (child_spec s) cs) (m_none_is_leaf s) = Inr ?r"
      by (fact tuple)
    show "operator_eq ne ?r s = Inr True"
      by (fact eq)
  qed
qed

theorem C6_children_reassembly_witness:
  "well_formed spec_nested \<and> kind (root spec_nested) = Tuple
   \<and> host_reflexive structural_ne
   \<and> Children spec_nested = Inr [spec_tuple2, spec_leaf]
   \<and> (\<exists>r. PyTreeSpec_Tuple [spec_tuple2, spec_leaf] False = Inr r
          \<and> operator_eq structural_ne r spec_nested = Inr True)"
proof -
  have wf: "well_formed spec_nested"
    by (simp add: well_formed_def well_formed_structure_def spec_nested_def replay_step_def
        node_fields_ok_def node_data_ok_def is_ssize_t_def leaf_node_def default_Node_def)
  have rt: "kind (root spec_nested) = Tuple"
    by (simp add: spec_nested_def root_def default_Node_def)
  have host: "host_reflexive structural_ne"
    by (simp add: host_reflexive_def structural_ne_def)
  have ch: "Children spec_nested = Inr [spec_tuple2, spec_leaf]"
    by (simp add: Children_def spec_nested_def spec_tuple2_def spec_leaf_def leaf_node_def
        default_Node_def eval_nat_numeral Let_def)
  have nil: "m_none_is_leaf spec_nested = False"
    by (simp add: spec_nested_def)
  from C6_children_reassembly[OF wf rt host] ch nil
  have "\<exists>r. PyTreeSpec_Tuple [spec_tuple2, spec_leaf] False = Inr r
          \<and> operator_eq structural_ne r spec_nested = Inr True"
    by auto
  with wf rt host ch show ?thesis
    by simp
qed

end
